theory Spec2Isabelle
  imports Complex_Main "HOL-Library.List_Lexorder" "HOL-Library.AList"
begin

section \<open>JavaScript strings, raw values and numbers\<close>

text \<open>
  A JavaScript string is a sequence of UTF-16 code units; a code unit is modelled by its
  number, so that the pound sign (U+00A3) and the euro sign (U+20AC) are single units as in
  the source. \<open>ascii\<close> writes an ASCII literal of the source as such a sequence.
\<close>

type_synonym jstring = "nat list"

definition ascii :: "string \<Rightarrow> jstring" where
  "ascii s = map of_char s"

text \<open>
  The code units that \<open>String.prototype.trim\<close> removes and that the string-to-number
  conversion skips at both ends: ECMAScript WhiteSpace and LineTerminator.
\<close>

definition isWhiteSpace :: "nat \<Rightarrow> bool" where
  "isWhiteSpace c \<longleftrightarrow>
     (9 \<le> c \<and> c \<le> 13) \<or> c = 32 \<or> c = 160 \<or> c = 5760 \<or> (8192 \<le> c \<and> c \<le> 8202) \<or>
     c = 8232 \<or> c = 8233 \<or> c = 8239 \<or> c = 8287 \<or> c = 12288 \<or> c = 65279"

definition trim :: "jstring \<Rightarrow> jstring" where
  "trim s = rev (dropWhile isWhiteSpace (rev (dropWhile isWhiteSpace s)))"

text \<open>
  A field of a parsed record: a property that is not there reads as \<open>undefined\<close>;
  the CSV parser delivers strings.
\<close>

datatype jsval = Undefined | Null | Str jstring

text \<open>
  The parts of the JavaScript host that the source calls and that depend on the Unicode tables,
  on the engine's date parser and on the local time zone are parameters of the model:
  \<open>String.prototype.toLowerCase\<close>, \<open>Date.parse\<close> (\<open>None\<close> is NaN, otherwise the
  time value in milliseconds) and the local calendar fields of a time value. So is
  \<open>roundDouble\<close>, the rounding of the exact result of an addition or a division, when it is
  in the range of the doubles, to the nearest double.
\<close>

record host =
  toLowerCase :: "jstring \<Rightarrow> jstring"
  Date_parse :: "jstring \<Rightarrow> int option"
  getFullYear :: "int \<Rightarrow> int"
  getMonth :: "int \<Rightarrow> nat"
  getDate :: "int \<Rightarrow> nat"
  roundDouble :: "rat \<Rightarrow> rat"

text \<open>
  A host for evaluation on ASCII input: lower-casing of the letters A to Z, a date parser
  that recognizes nothing beyond the ISO form the source checks itself, and no rounding (the
  sums and quotients of the examples below are doubles).
\<close>

definition asciiLower :: "jstring \<Rightarrow> jstring" where
  "asciiLower s = map (\<lambda>c. if 65 \<le> c \<and> c \<le> 90 then c + 32 else c) s"

definition ascii_host :: host where
  "ascii_host = \<lparr> toLowerCase = asciiLower, Date_parse = (\<lambda>s. None),
     getFullYear = (\<lambda>t. 1970), getMonth = (\<lambda>t. 0), getDate = (\<lambda>t. 1),
     roundDouble = (\<lambda>q. q) \<rparr>"

text \<open>
  A JavaScript number. A finite double is modelled by its exact value. The value of a numeric
  literal is taken as it is written; the results of additions and divisions are rounded by
  the host's \<open>roundDouble\<close>.
\<close>

datatype jsnumber = Finite rat | PosInfinity | NegInfinity | NaN

definition negate :: "jsnumber \<Rightarrow> jsnumber" where
  "negate n = (case n of Finite q \<Rightarrow> Finite (- q) | PosInfinity \<Rightarrow> NegInfinity
     | NegInfinity \<Rightarrow> PosInfinity | NaN \<Rightarrow> NaN)"

text \<open>
  The value of a numeric literal becomes an infinity when rounding to the nearest double
  overflows: from \<open>2^1024 - 2^970\<close> on.
\<close>

definition toDouble :: "rat \<Rightarrow> jsnumber" where
  "toDouble q =
     (if 2 ^ 1024 - 2 ^ 970 \<le> q then PosInfinity
      else if q \<le> - (2 ^ 1024 - 2 ^ 970) then NegInfinity
      else Finite q)"

definition isDigit :: "nat \<Rightarrow> bool" where
  "isDigit c \<longleftrightarrow> 48 \<le> c \<and> c \<le> 57"

definition isHexDigit :: "nat \<Rightarrow> bool" where
  "isHexDigit c \<longleftrightarrow> isDigit c \<or> (97 \<le> c \<and> c \<le> 102) \<or> (65 \<le> c \<and> c \<le> 70)"

definition digitValue :: "nat \<Rightarrow> nat" where
  "digitValue c = (if isDigit c then c - 48 else if 97 \<le> c then c - 87 else c - 55)"

definition radixValue :: "nat \<Rightarrow> jstring \<Rightarrow> nat" where
  "radixValue b ds = foldl (\<lambda>a c. b * a + digitValue c) 0 ds"

definition decimalDigits :: "jstring \<Rightarrow> nat option" where
  "decimalDigits ds = (if ds \<noteq> [] \<and> list_all isDigit ds then Some (radixValue 10 ds) else None)"

definition signedInteger :: "jstring \<Rightarrow> int option" where
  "signedInteger s =
     (case s of
        [] \<Rightarrow> None
      | c # ds \<Rightarrow>
          if c = 43 then map_option int (decimalDigits ds)
          else if c = 45 then map_option (\<lambda>n. - int n) (decimalDigits ds)
          else map_option int (decimalDigits s))"

definition exponentPart :: "jstring \<Rightarrow> int option" where
  "exponentPart r =
     (case r of
        [] \<Rightarrow> Some 0
      | c # ds \<Rightarrow> if c = 101 \<or> c = 69 then signedInteger ds else None)"

definition scale10 :: "rat \<Rightarrow> int \<Rightarrow> rat" where
  "scale10 q e = (if 0 \<le> e then q * 10 ^ nat e else q / 10 ^ nat (- e))"

definition strUnsignedDecimalLiteral :: "jstring \<Rightarrow> jsnumber" where
  "strUnsignedDecimalLiteral s =
     (if s = ascii ''Infinity'' then PosInfinity
      else
        let ip = takeWhile isDigit s;
            r1 = dropWhile isDigit s;
            dot = (r1 \<noteq> [] \<and> hd r1 = 46);
            fp = (if dot then takeWhile isDigit (tl r1) else []);
            r2 = (if dot then dropWhile isDigit (tl r1) else r1)
        in if ip = [] \<and> fp = [] then NaN
           else
             (case exponentPart r2 of
                None \<Rightarrow> NaN
              | Some e \<Rightarrow>
                  Finite (scale10 (of_nat (radixValue 10 ip)
                                   + of_nat (radixValue 10 fp) / 10 ^ length fp) e)))"

definition strDecimalLiteral :: "jstring \<Rightarrow> jsnumber" where
  "strDecimalLiteral s =
     (case s of
        [] \<Rightarrow> NaN
      | c # r \<Rightarrow>
          if c = 43 then strUnsignedDecimalLiteral r
          else if c = 45 then negate (strUnsignedDecimalLiteral r)
          else strUnsignedDecimalLiteral s)"

definition nonDecimalIntegerLiteral :: "jstring \<Rightarrow> nat option" where
  "nonDecimalIntegerLiteral s =
     (case s of
        a # b # ds \<Rightarrow>
          if a = 48 \<and> ds \<noteq> [] then
            (if (b = 120 \<or> b = 88) \<and> list_all isHexDigit ds then Some (radixValue 16 ds)
             else if (b = 111 \<or> b = 79) \<and> list_all (\<lambda>c. 48 \<le> c \<and> c \<le> 55) ds
               then Some (radixValue 8 ds)
             else if (b = 98 \<or> b = 66) \<and> list_all (\<lambda>c. c = 48 \<or> c = 49) ds
               then Some (radixValue 2 ds)
             else None)
          else None
      | _ \<Rightarrow> None)"

text \<open>
  \<open>Number(s)\<close> on a string: the ECMAScript StringToNumber. White space at both ends is
  skipped, the empty string is \<open>0\<close>, a string outside the grammar of numeric literals is
  NaN.
\<close>

definition Number :: "jstring \<Rightarrow> jsnumber" where
  "Number s =
     (let t = trim s in
      if t = [] then Finite 0
      else
        (case nonDecimalIntegerLiteral t of
           Some n \<Rightarrow> toDouble (of_nat n)
         | None \<Rightarrow>
             (case strDecimalLiteral t of
                Finite q \<Rightarrow> toDouble q
              | n \<Rightarrow> n)))"

section \<open>Field normalizers\<close>

definition parseNumber :: "jsval \<Rightarrow> rat option" where
  "parseNumber v =
     (case v of
        Undefined \<Rightarrow> None
      | Null \<Rightarrow> None
      | Str s0 \<Rightarrow>
          let s = trim s0 in
          if s = [] then None
          else
            let cleaned = filter (\<lambda>c. c \<noteq> 36 \<and> c \<noteq> 163 \<and> c \<noteq> 8364 \<and> c \<noteq> 44) s
            in (case Number cleaned of Finite n \<Rightarrow> Some n | _ \<Rightarrow> None))"

definition TRUE_TOKENS :: "jstring list" where
  "TRUE_TOKENS = map ascii [''true'', ''t'', ''yes'', ''y'', ''1'', ''in stock'', ''instock'']"

definition FALSE_TOKENS :: "jstring list" where
  "FALSE_TOKENS = map ascii [''false'', ''f'', ''no'', ''n'', ''0'', ''out of stock'', ''oos'']"

definition parseBoolean :: "host \<Rightarrow> jsval \<Rightarrow> bool option" where
  "parseBoolean h v =
     (case v of
        Undefined \<Rightarrow> None
      | Null \<Rightarrow> None
      | Str s0 \<Rightarrow>
          let s = toLowerCase h (trim s0) in
          if s = [] then None
          else if s \<in> set TRUE_TOKENS then Some True
          else if s \<in> set FALSE_TOKENS then Some False
          else None)"

text \<open>
  The test of the regular expression \<open>^(\d{4})-(\d{2})-(\d{2})$\<close>: ten code units, ASCII
  digits around two hyphens.
\<close>

definition isoMatch :: "jstring \<Rightarrow> bool" where
  "isoMatch s \<longleftrightarrow>
     length s = 10 \<and> list_all isDigit (take 4 s) \<and> s ! 4 = 45 \<and>
     list_all isDigit (take 2 (drop 5 s)) \<and> s ! 7 = 45 \<and> list_all isDigit (drop 8 s)"

text \<open>The decimal digits of a natural number and of an integer, as \<open>String(n)\<close> writes them.\<close>

function digitsOf :: "nat \<Rightarrow> jstring" where
  "digitsOf n = (if n < 10 then [48 + n] else digitsOf (n div 10) @ [48 + n mod 10])"
  by pat_completeness auto
termination
  by (relation "measure id") auto

declare digitsOf.simps [simp del]

definition intToString :: "int \<Rightarrow> jstring" where
  "intToString i = (if i < 0 then 45 # digitsOf (nat (- i)) else digitsOf (nat i))"

definition padStart2 :: "jstring \<Rightarrow> jstring" where
  "padStart2 s = replicate (2 - length s) 48 @ s"

definition parseDateISO :: "host \<Rightarrow> jsval \<Rightarrow> jstring option" where
  "parseDateISO h v =
     (case v of
        Undefined \<Rightarrow> None
      | Null \<Rightarrow> None
      | Str s0 \<Rightarrow>
          let s = trim s0 in
          if s = [] then None
          else if isoMatch s then Some s
          else
            (case Date_parse h s of
               None \<Rightarrow> None
             | Some t \<Rightarrow>
                 let yyyy = getFullYear h t;
                     mm = padStart2 (digitsOf (getMonth h t + 1));
                     dd = padStart2 (digitsOf (getDate h t))
                 in Some (intToString yyyy @ [45] @ mm @ [45] @ dd)))"

section \<open>Header validator\<close>

definition REQUIRED_COLUMNS :: "jstring list" where
  "REQUIRED_COLUMNS = map ascii [''product'', ''price'', ''rating'', ''instock'', ''launch_date'']"

definition OPTIONAL_COLUMNS :: "jstring list" where
  "OPTIONAL_COLUMNS = map ascii [''review'']"

text \<open>The result is the pair of \<open>missing\<close> and \<open>unexpected\<close>.\<close>

definition validateColumns :: "jstring list \<Rightarrow> jstring list \<times> jstring list" where
  "validateColumns headers =
     (filter (\<lambda>c. c \<notin> set headers) REQUIRED_COLUMNS,
      filter (\<lambda>h. h \<notin> set REQUIRED_COLUMNS \<and> h \<notin> set OPTIONAL_COLUMNS) headers)"

section \<open>Row cleaner\<close>

text \<open>
  A parsed record is an object whose keys are the normalized headers: the list of its
  properties in the order \<open>Object.keys\<close> enumerates them. Reading a property that the
  record does not have gives \<open>undefined\<close>.
\<close>

type_synonym rawRecord = "(jstring \<times> jsval) list"

definition Object_keys :: "rawRecord \<Rightarrow> jstring list" where
  "Object_keys row = map fst row"

definition getProp :: "rawRecord \<Rightarrow> string \<Rightarrow> jsval" where
  "getProp row k = (case map_of row (ascii k) of None \<Rightarrow> Undefined | Some v \<Rightarrow> v)"

text \<open>\<open>String(v ?? "")\<close>: the string itself, the empty string for null and undefined.\<close>

definition stringOrEmpty :: "jsval \<Rightarrow> jstring" where
  "stringOrEmpty v = (case v of Str s \<Rightarrow> s | _ \<Rightarrow> [])"

record cleaned =
  product :: "jstring option"
  price :: "rat option"
  rating :: "rat option"
  instock :: "bool option"
  review :: "jstring option"
  launch_date :: "jstring option"

definition cleanRow :: "host \<Rightarrow> rawRecord \<Rightarrow> cleaned" where
  "cleanRow h row =
     (let cleaned =
        \<lparr> product = (let t = trim (stringOrEmpty (getProp row ''product''))
                     in if t = [] then None else Some t),
          price = parseNumber (getProp row ''price''),
          rating = parseNumber (getProp row ''rating''),
          instock = parseBoolean h (getProp row ''instock''),
          review = (if getProp row ''review'' \<noteq> Undefined
                    then Some (trim (stringOrEmpty (getProp row ''review''))) else None),
          launch_date = parseDateISO h (getProp row ''launch_date'') \<rparr>
      in case rating cleaned of
           None \<Rightarrow> cleaned
         | Some x \<Rightarrow>
             let r1 = (if x < 0 then 0 else x);
                 r2 = (if r1 > 5 then 5 else r1)
             in cleaned\<lparr>rating := Some r2\<rparr>)"

section \<open>Aggregator\<close>

text \<open>
  A \<open>Map\<close> is the list of its entries in insertion order: \<open>map_of\<close> is \<open>get\<close>, and
  \<open>AList.update\<close> is \<open>set\<close> (the value of a key that is there is replaced in place, a new
  key goes to the end).

  \<open>Array.prototype.sort\<close> is stable; with a consistent comparator its result is the one
  of the stable insertion sort below.
\<close>

fun insertBy :: "('a \<Rightarrow> 'a \<Rightarrow> int) \<Rightarrow> 'a \<Rightarrow> 'a list \<Rightarrow> 'a list" where
  "insertBy cmp x [] = [x]"
| "insertBy cmp x (y # ys) = (if cmp x y \<le> 0 then x # y # ys else y # insertBy cmp x ys)"

definition Array_sort :: "('a \<Rightarrow> 'a \<Rightarrow> int) \<Rightarrow> 'a list \<Rightarrow> 'a list" where
  "Array_sort cmp xs = foldr (insertBy cmp) xs []"

text \<open>
  \<open>localeCompare\<close> is applied to month keys only, which consist of ASCII digits and
  hyphens; there the collation order is the order of the code units.
\<close>

definition localeCompare :: "jstring \<Rightarrow> jstring \<Rightarrow> int" where
  "localeCompare a b = (if a < b then - 1 else if a = b then 0 else 1)"

text \<open>
  The sum \<open>a + x\<close> of a running total and a finite number, as JavaScript computes it: the
  exact sum rounded to a double, an infinity when the rounding overflows, and an infinity
  stays what it is.
\<close>

definition js_add :: "host \<Rightarrow> jsnumber \<Rightarrow> rat \<Rightarrow> jsnumber" where
  "js_add h a x =
     (case a of
        Finite q \<Rightarrow> (case toDouble (q + x) of Finite s \<Rightarrow> Finite (roundDouble h s) | n \<Rightarrow> n)
      | PosInfinity \<Rightarrow> PosInfinity
      | NegInfinity \<Rightarrow> NegInfinity
      | NaN \<Rightarrow> NaN)"

text \<open>
  The quotient \<open>a / n\<close> of a total by a count, as JavaScript computes it: no exception at
  zero, where the quotient of zero is NaN and that of another number an infinity.
\<close>

definition js_div :: "host \<Rightarrow> jsnumber \<Rightarrow> nat \<Rightarrow> jsnumber" where
  "js_div h a n =
     (case a of
        Finite q \<Rightarrow>
          if n = 0 then (if q = 0 then NaN else if 0 < q then PosInfinity else NegInfinity)
          else Finite (roundDouble h (q / of_nat n))
      | PosInfinity \<Rightarrow> PosInfinity
      | NegInfinity \<Rightarrow> NegInfinity
      | NaN \<Rightarrow> NaN)"

record missingCounts =
  missing_product :: nat
  missing_price :: nat
  missing_rating :: nat
  missing_instock :: nat
  missing_launch_date :: nat

record instockBuckets =
  instock_true :: nat
  instock_false :: nat
  instock_null :: nat

record monthAccum =
  acc_count :: nat
  priceSum :: jsnumber
  priceN :: nat
  ratingSum :: jsnumber
  ratingN :: nat

record monthEntry =
  month :: jstring
  count :: nat
  avgPrice :: "jsnumber option"
  avgRating :: "jsnumber option"

record numStats =
  stats_count :: nat
  stats_min :: "rat option"
  stats_max :: "rat option"
  stats_mean :: "jsnumber option"

record productEntry =
  entry_product :: jstring
  entry_count :: nat

text \<open>The accumulators of the loop over the rows.\<close>

record aggState =
  acc_missing :: missingCounts
  numeric_price :: "rat list"
  numeric_rating :: "rat list"
  productCounts :: "(jstring \<times> nat) list"
  acc_instockCounts :: instockBuckets
  monthAcc :: "(jstring \<times> monthAccum) list"

record analytics =
  totalRows :: nat
  missing :: missingCounts
  stats_price :: numStats
  stats_rating :: numStats
  topProducts :: "productEntry list"
  instockCounts :: instockBuckets
  monthly :: "monthEntry list"

definition initState :: aggState where
  "initState =
     \<lparr> acc_missing = \<lparr> missing_product = 0, missing_price = 0, missing_rating = 0,
                       missing_instock = 0, missing_launch_date = 0 \<rparr>,
       numeric_price = [],
       numeric_rating = [],
       productCounts = [],
       acc_instockCounts = \<lparr> instock_true = 0, instock_false = 0, instock_null = 0 \<rparr>,
       monthAcc = [] \<rparr>"

definition countMissing :: "missingCounts \<Rightarrow> cleaned \<Rightarrow> missingCounts" where
  "countMissing m r =
     \<lparr> missing_product = missing_product m + (if product r = None then 1 else 0),
       missing_price = missing_price m + (if price r = None then 1 else 0),
       missing_rating = missing_rating m + (if rating r = None then 1 else 0),
       missing_instock = missing_instock m + (if instock r = None then 1 else 0),
       missing_launch_date = missing_launch_date m + (if launch_date r = None then 1 else 0) \<rparr>"

definition countProduct :: "(jstring \<times> nat) list \<Rightarrow> cleaned \<Rightarrow> (jstring \<times> nat) list" where
  "countProduct pc r =
     (let p = (case product r of None \<Rightarrow> ascii ''Unknown'' | Some s \<Rightarrow> s)
      in AList.update p ((case map_of pc p of None \<Rightarrow> 0 | Some n \<Rightarrow> n) + 1) pc)"

definition countInstock :: "instockBuckets \<Rightarrow> cleaned \<Rightarrow> instockBuckets" where
  "countInstock c r =
     (if instock r = Some True then c\<lparr>instock_true := instock_true c + 1\<rparr>
      else if instock r = Some False then c\<lparr>instock_false := instock_false c + 1\<rparr>
      else c\<lparr>instock_null := instock_null c + 1\<rparr>)"

text \<open>The test \<open>if (r.launch_date)\<close> holds for a string that is not empty.\<close>

definition accumulateMonth ::
  "host \<Rightarrow> (jstring \<times> monthAccum) list \<Rightarrow> cleaned \<Rightarrow> (jstring \<times> monthAccum) list" where
  "accumulateMonth h ma r =
     (case launch_date r of
        None \<Rightarrow> ma
      | Some d \<Rightarrow>
          if d = [] then ma
          else
            let month = take 7 d;
                acc = (case map_of ma month of
                         None \<Rightarrow> \<lparr> acc_count = 0, priceSum = Finite 0, priceN = 0,
                                   ratingSum = Finite 0, ratingN = 0 \<rparr>
                       | Some a \<Rightarrow> a);
                acc1 = acc\<lparr>acc_count := acc_count acc + 1\<rparr>;
                acc2 = (case price r of
                          None \<Rightarrow> acc1
                        | Some p \<Rightarrow> acc1\<lparr>priceSum := js_add h (priceSum acc1) p,
                                         priceN := priceN acc1 + 1\<rparr>);
                acc3 = (case rating r of
                          None \<Rightarrow> acc2
                        | Some x \<Rightarrow> acc2\<lparr>ratingSum := js_add h (ratingSum acc2) x,
                                         ratingN := ratingN acc2 + 1\<rparr>)
            in AList.update month acc3 ma)"

definition step :: "host \<Rightarrow> aggState \<Rightarrow> cleaned \<Rightarrow> aggState" where
  "step h st r =
     \<lparr> acc_missing = countMissing (acc_missing st) r,
       numeric_price = (case price r of None \<Rightarrow> numeric_price st | Some p \<Rightarrow> numeric_price st @ [p]),
       numeric_rating = (case rating r of None \<Rightarrow> numeric_rating st | Some x \<Rightarrow> numeric_rating st @ [x]),
       productCounts = countProduct (productCounts st) r,
       acc_instockCounts = countInstock (acc_instockCounts st) r,
       monthAcc = accumulateMonth h (monthAcc st) r \<rparr>"

text \<open>
  The entry of a month, computed from its accumulator. It carries its key from the start;
  the source adds the key to the entry after sorting.
\<close>

definition finalizeMonth :: "host \<Rightarrow> jstring \<times> monthAccum \<Rightarrow> jstring \<times> monthEntry" where
  "finalizeMonth h e =
     (case e of (m, acc) \<Rightarrow>
        (m, \<lparr> month = m,
              count = acc_count acc,
              avgPrice =
                (if priceN acc \<noteq> 0 then Some (js_div h (priceSum acc) (priceN acc)) else None),
              avgRating =
                (if ratingN acc \<noteq> 0 then Some (js_div h (ratingSum acc) (ratingN acc)) else None) \<rparr>))"

definition stats :: "host \<Rightarrow> rat list \<Rightarrow> numStats" where
  "stats h arr =
     (if arr = [] then \<lparr> stats_count = 0, stats_min = None, stats_max = None, stats_mean = None \<rparr>
      else
        (case foldl (\<lambda>(mn, mx, sm) x.
                       (if x < mn then x else mn, if x > mx then x else mx, js_add h sm x))
                (hd arr, hd arr, Finite 0) arr of
           (mn, mx, sm) \<Rightarrow>
             \<lparr> stats_count = length arr, stats_min = Some mn, stats_max = Some mx,
               stats_mean = Some (js_div h sm (length arr)) \<rparr>))"

definition computeAnalytics :: "host \<Rightarrow> cleaned list \<Rightarrow> analytics" where
  "computeAnalytics h rows =
     (let st = foldl (step h) initState rows;
          byMonth = map (finalizeMonth h) (monthAcc st)
      in \<lparr> totalRows = length rows,
           missing = acc_missing st,
           stats_price = stats h (numeric_price st),
           stats_rating = stats h (numeric_rating st),
           topProducts =
             map (\<lambda>(p, c). \<lparr> entry_product = p, entry_count = c \<rparr>)
               (take 10 (Array_sort (\<lambda>a b. int (snd b) - int (snd a)) (productCounts st))),
           instockCounts = acc_instockCounts st,
           monthly = map snd (Array_sort (\<lambda>a b. localeCompare (fst a) (fst b)) byMonth) \<rparr>)"

section \<open>The pipeline\<close>

text \<open>
  The handler from the parsed records on. The row filter keeps a row when one of the five
  tracked fields is not null.
\<close>

datatype response =
    Success (warnings: "jstring list option") (analytics_of: analytics)
      (sampleCleanedRows: "cleaned list")
  | SchemaError (details_missing: "jstring list") (details_required: "jstring list")
      (details_found: "jstring list")

definition keepRow :: "cleaned \<Rightarrow> bool" where
  "keepRow r \<longleftrightarrow>
     product r \<noteq> None \<or> price r \<noteq> None \<or> rating r \<noteq> None \<or> instock r \<noteq> None \<or>
     launch_date r \<noteq> None"

definition finalRows :: "host \<Rightarrow> rawRecord list \<Rightarrow> cleaned list" where
  "finalRows h records = filter keepRow (map (cleanRow h) records)"

definition headersOf :: "rawRecord list \<Rightarrow> jstring list" where
  "headersOf records = (if records \<noteq> [] then Object_keys (hd records) else [])"

definition upload :: "host \<Rightarrow> rawRecord list \<Rightarrow> response" where
  "upload h records =
     (let headers = headersOf records
      in case validateColumns headers of
           (missingCols, unexpected) \<Rightarrow>
             if missingCols \<noteq> [] then SchemaError missingCols REQUIRED_COLUMNS headers
             else
               Success (if unexpected \<noteq> [] then Some unexpected else None)
                 (computeAnalytics h (finalRows h records))
                 (take 8 (finalRows h records)))"

section \<open>Example records\<close>

text \<open>
  Three records of one file with the five required columns and the optional review column:
  a row with a rating above the range and an empty review, a row whose tracked fields are
  all empty, and a row of an earlier month with a price in pounds, a negative rating and an
  instock token outside both token lists.
\<close>

definition widgetRecord :: rawRecord where
  "widgetRecord =
     [(ascii ''product'', Str (ascii ''Widget'')), (ascii ''price'', Str (ascii ''$10,000'')),
      (ascii ''rating'', Str (ascii ''7.2'')), (ascii ''instock'', Str (ascii ''yes'')),
      (ascii ''launch_date'', Str (ascii ''2024-01-05'')), (ascii ''review'', Str [])]"

definition blankRecord :: rawRecord where
  "blankRecord =
     [(ascii ''product'', Str []), (ascii ''price'', Str []),
      (ascii ''rating'', Str []), (ascii ''instock'', Str []),
      (ascii ''launch_date'', Str []), (ascii ''review'', Str (ascii ''nice''))]"

definition gadgetRecord :: rawRecord where
  "gadgetRecord =
     [(ascii ''product'', Str (ascii ''Gadget'')), (ascii ''price'', Str (163 # ascii ''1,234.50'')),
      (ascii ''rating'', Str (ascii ''-1'')), (ascii ''instock'', Str (ascii ''maybe'')),
      (ascii ''launch_date'', Str (ascii ''2023-12-31'')), (ascii ''review'', Str (ascii ''ok''))]"

text \<open>A record whose price is so large that the sum of two such prices is beyond the doubles.\<close>

definition bulkRecord :: rawRecord where
  "bulkRecord =
     [(ascii ''product'', Str (ascii ''Bulk'')), (ascii ''price'', Str (ascii ''1e308'')),
      (ascii ''rating'', Str []), (ascii ''instock'', Str (ascii ''no'')),
      (ascii ''launch_date'', Str (ascii ''2024-01-20'')), (ascii ''review'', Str [])]"

section \<open>Notions of the specification\<close>

text \<open>
  The rows of a month bucket: the rows whose launch date is not null and has the given
  seven-unit prefix. The non-null values of a field, in row order. The sum of a list of
  values, added up from zero in the order of the list with the addition of JavaScript, and
  their mean, that sum divided by their number, null for the empty list.
\<close>

definition bucketRows :: "jstring \<Rightarrow> cleaned list \<Rightarrow> cleaned list" where
  "bucketRows k rows = filter (\<lambda>r. case launch_date r of None \<Rightarrow> False | Some d \<Rightarrow> take 7 d = k) rows"

definition nonNull :: "(cleaned \<Rightarrow> 'a option) \<Rightarrow> cleaned list \<Rightarrow> 'a list" where
  "nonNull f rows = List.map_filter f rows"

definition js_sum :: "host \<Rightarrow> rat list \<Rightarrow> jsnumber" where
  "js_sum h xs = foldl (js_add h) (Finite 0) xs"

definition average :: "host \<Rightarrow> rat list \<Rightarrow> jsnumber option" where
  "average h xs = (if xs = [] then None else Some (js_div h (js_sum h xs) (length xs)))"

text \<open>The accumulator that a list of rows of one month adds up to.\<close>

definition bucketAcc :: "host \<Rightarrow> cleaned list \<Rightarrow> monthAccum" where
  "bucketAcc h B =
     \<lparr> acc_count = length B,
       priceSum = js_sum h (nonNull price B), priceN = length (nonNull price B),
       ratingSum = js_sum h (nonNull rating B), ratingN = length (nonNull rating B) \<rparr>"

definition clamp05 :: "rat \<Rightarrow> rat" where
  "clamp05 x = (if x < 0 then 0 else if x > 5 then 5 else x)"

section \<open>The loop of the aggregator\<close>

lemma step_simps [simp]:
  "acc_missing (step h st r) = countMissing (acc_missing st) r"
  "numeric_price (step h st r) = (case price r of None \<Rightarrow> numeric_price st | Some p \<Rightarrow> numeric_price st @ [p])"
  "numeric_rating (step h st r) = (case rating r of None \<Rightarrow> numeric_rating st | Some x \<Rightarrow> numeric_rating st @ [x])"
  "productCounts (step h st r) = countProduct (productCounts st) r"
  "acc_instockCounts (step h st r) = countInstock (acc_instockCounts st) r"
  "monthAcc (step h st r) = accumulateMonth h (monthAcc st) r"
  by (simp_all add: step_def)

lemma computeAnalytics_simps:
  "totalRows (computeAnalytics h rows) = length rows"
  "missing (computeAnalytics h rows) = acc_missing (foldl (step h) initState rows)"
  "instockCounts (computeAnalytics h rows) = acc_instockCounts (foldl (step h) initState rows)"
  "stats_price (computeAnalytics h rows) = stats h (numeric_price (foldl (step h) initState rows))"
  "stats_rating (computeAnalytics h rows) = stats h (numeric_rating (foldl (step h) initState rows))"
  "monthly (computeAnalytics h rows) =
     map snd (Array_sort (\<lambda>a b. localeCompare (fst a) (fst b))
       (map (finalizeMonth h) (monthAcc (foldl (step h) initState rows))))"
  by (simp_all add: computeAnalytics_def Let_def)

lemma instock_loop:
  "instock_true (acc_instockCounts (foldl (step h) st rows)) =
     instock_true (acc_instockCounts st) + length (filter (\<lambda>r. instock r = Some True) rows) \<and>
   instock_false (acc_instockCounts (foldl (step h) st rows)) =
     instock_false (acc_instockCounts st) + length (filter (\<lambda>r. instock r = Some False) rows) \<and>
   instock_null (acc_instockCounts (foldl (step h) st rows)) =
     instock_null (acc_instockCounts st) + length (filter (\<lambda>r. instock r = None) rows)"
proof (induction rows arbitrary: st)
  case Nil
  show ?case by simp
next
  case (Cons r rows)
  show ?case
    by (cases "instock r") (auto simp: Cons.IH countInstock_def)
qed

lemma tri_state_partition:
  "length (filter (\<lambda>r. instock r = Some True) rows)
     + length (filter (\<lambda>r. instock r = Some False) rows)
     + length (filter (\<lambda>r. instock r = None) rows) = length rows"
proof (induction rows)
  case Nil
  show ?case by simp
next
  case (Cons r rows)
  then show ?case by (cases "instock r") auto
qed

section \<open>The instock buckets\<close>

text \<open>
  C10: every row increments exactly one of the three instock counters, so the counters of
  the aggregator add up to \<open>totalRows\<close>, for every list of rows.
\<close>

theorem instockCounts_sum_totalRows:
  "instock_true (instockCounts (computeAnalytics h rows))
     + instock_false (instockCounts (computeAnalytics h rows))
     + instock_null (instockCounts (computeAnalytics h rows))
   = totalRows (computeAnalytics h rows)"
proof -
  have "acc_instockCounts initState = \<lparr> instock_true = 0, instock_false = 0, instock_null = 0 \<rparr>"
    by (simp add: initState_def)
  then show ?thesis
    using tri_state_partition [of rows]
    by (simp add: computeAnalytics_simps instock_loop)
qed

section \<open>Evaluation of the normalizers on the examples\<close>

lemmas number_eval_defs =
  strDecimalLiteral_def strUnsignedDecimalLiteral_def isDigit_def exponentPart_def
  signedInteger_def decimalDigits_def radixValue_def digitValue_def scale10_def negate_def
  nonDecimalIntegerLiteral_def isHexDigit_def

lemma toDouble_small: "\<bar>q\<bar> \<le> 2 ^ 64 \<Longrightarrow> toDouble q = Finite q"
proof -
  assume a: "\<bar>q\<bar> \<le> 2 ^ 64"
  have "(2::rat) ^ 64 < 2 ^ 1024 - 2 ^ 970" by simp
  with a show ?thesis by (auto simp: toDouble_def abs_le_iff)
qed

lemma Number_decimal:
  assumes "trim s = t" "t \<noteq> []" "nonDecimalIntegerLiteral t = None"
    "strDecimalLiteral t = Finite q" "\<bar>q\<bar> \<le> 2 ^ 64"
  shows "Number s = Finite q"
  using assms by (simp add: Number_def toDouble_small)

lemma Number_NaN:
  assumes "trim s = t" "t \<noteq> []" "nonDecimalIntegerLiteral t = None" "strDecimalLiteral t = NaN"
  shows "Number s = NaN"
  using assms by (simp add: Number_def)

lemma parseNumber_Str:
  assumes "trim s0 = s" "s \<noteq> []"
  shows "parseNumber (Str s0) =
    (case Number (filter (\<lambda>c. c \<noteq> 36 \<and> c \<noteq> 163 \<and> c \<noteq> 8364 \<and> c \<noteq> 44) s) of
       Finite n \<Rightarrow> Some n | _ \<Rightarrow> None)"
  using assms by (simp add: parseNumber_def)

lemma parseNumber_blank: "trim s0 = [] \<Longrightarrow> parseNumber (Str s0) = None"
  by (simp add: parseNumber_def)

lemma ascii_eq_Nil [simp]: "ascii s = [] \<longleftrightarrow> s = []"
  by (simp add: ascii_def)

lemma trim_Nil [simp]: "trim [] = []"
  by (simp add: trim_def)

lemma parseNumber_pound: "parseNumber (Str (163 # ascii ''1,234.50'')) = Some (2469 / 2)"
proof -
  have a: "163 # ascii ''1,234.50'' = [163, 49, 44, 50, 51, 52, 46, 53, 48]" by (simp add: ascii_def)
  have t: "trim [163, 49, 44, 50, 51, 52, 46, 53, 48] = [163, 49, 44, 50, 51, 52, 46, 53, 48]"
    by (simp add: trim_def isWhiteSpace_def)
  have t': "trim [49, 50, 51, 52, 46, 53, 48] = [49, 50, 51, 52, 46, 53, 48]"
    by (simp add: trim_def isWhiteSpace_def)
  have n: "Number [49, 50, 51, 52, 46, 53, 48] = Finite (2469 / 2)"
    by (rule Number_decimal [OF t']) (simp_all add: number_eval_defs ascii_def)
  show ?thesis
    unfolding a by (subst parseNumber_Str [OF t]) (simp_all add: n)
qed

lemma parseNumber_abc: "parseNumber (Str (ascii ''abc'')) = None"
proof -
  have a: "ascii ''abc'' = [97, 98, 99]" by (simp add: ascii_def)
  have t: "trim [97, 98, 99] = [97, 98, 99]" by (simp add: trim_def isWhiteSpace_def)
  have n: "Number [97, 98, 99] = NaN"
    by (rule Number_NaN [OF t]) (simp_all add: number_eval_defs ascii_def)
  show ?thesis
    unfolding a by (subst parseNumber_Str [OF t]) (simp_all add: n)
qed

lemma parseNumber_10000: "parseNumber (Str (ascii ''$10,000'')) = Some 10000"
proof -
  have a: "ascii ''$10,000'' = [36, 49, 48, 44, 48, 48, 48]" by (simp add: ascii_def)
  have t: "trim [36, 49, 48, 44, 48, 48, 48] = [36, 49, 48, 44, 48, 48, 48]"
    by (simp add: trim_def isWhiteSpace_def)
  have t': "trim [49, 48, 48, 48, 48] = [49, 48, 48, 48, 48]"
    by (simp add: trim_def isWhiteSpace_def)
  have n: "Number [49, 48, 48, 48, 48] = Finite 10000"
    by (rule Number_decimal [OF t']) (simp_all add: number_eval_defs ascii_def)
  show ?thesis
    unfolding a by (subst parseNumber_Str [OF t]) (simp_all add: n)
qed

lemma parseNumber_7_2: "parseNumber (Str (ascii ''7.2'')) = Some (36 / 5)"
proof -
  have a: "ascii ''7.2'' = [55, 46, 50]" by (simp add: ascii_def)
  have t: "trim [55, 46, 50] = [55, 46, 50]" by (simp add: trim_def isWhiteSpace_def)
  have n: "Number [55, 46, 50] = Finite (36 / 5)"
    by (rule Number_decimal [OF t]) (simp_all add: number_eval_defs ascii_def)
  show ?thesis
    unfolding a by (subst parseNumber_Str [OF t]) (simp_all add: n)
qed

lemma parseNumber_minus_1: "parseNumber (Str (ascii ''-1'')) = Some (- 1)"
proof -
  have a: "ascii ''-1'' = [45, 49]" by (simp add: ascii_def)
  have t: "trim [45, 49] = [45, 49]" by (simp add: trim_def isWhiteSpace_def)
  have n: "Number [45, 49] = Finite (- 1)"
    by (rule Number_decimal [OF t]) (simp_all add: number_eval_defs ascii_def)
  show ?thesis
    unfolding a by (subst parseNumber_Str [OF t]) (simp_all add: n)
qed

lemma parseBoolean_yes: "parseBoolean ascii_host (Str (ascii ''yes'')) = Some True"
  by (simp add: parseBoolean_def ascii_host_def asciiLower_def trim_def isWhiteSpace_def
      TRUE_TOKENS_def FALSE_TOKENS_def ascii_def)

lemma parseBoolean_maybe: "parseBoolean ascii_host (Str (ascii ''maybe'')) = None"
  by (simp add: parseBoolean_def ascii_host_def asciiLower_def trim_def isWhiteSpace_def
      TRUE_TOKENS_def FALSE_TOKENS_def ascii_def)

lemma parseBoolean_blank: "parseBoolean ascii_host (Str []) = None"
  by (simp add: parseBoolean_def ascii_host_def asciiLower_def)

lemma parseDateISO_iso:
  "parseDateISO ascii_host (Str (ascii ''2024-01-05'')) = Some (ascii ''2024-01-05'')"
  "parseDateISO ascii_host (Str (ascii ''2023-12-31'')) = Some (ascii ''2023-12-31'')"
  by (simp_all add: parseDateISO_def trim_def isWhiteSpace_def isoMatch_def isDigit_def ascii_def)

lemma parseDateISO_blank: "parseDateISO h (Str []) = None"
  by (simp add: parseDateISO_def)

lemma getProp_widget:
  "getProp widgetRecord ''product'' = Str (ascii ''Widget'')"
  "getProp widgetRecord ''price'' = Str (ascii ''$10,000'')"
  "getProp widgetRecord ''rating'' = Str (ascii ''7.2'')"
  "getProp widgetRecord ''instock'' = Str (ascii ''yes'')"
  "getProp widgetRecord ''launch_date'' = Str (ascii ''2024-01-05'')"
  "getProp widgetRecord ''review'' = Str []"
  by (simp_all add: getProp_def widgetRecord_def ascii_def)

lemma getProp_blank:
  "getProp blankRecord ''product'' = Str []"
  "getProp blankRecord ''price'' = Str []"
  "getProp blankRecord ''rating'' = Str []"
  "getProp blankRecord ''instock'' = Str []"
  "getProp blankRecord ''launch_date'' = Str []"
  "getProp blankRecord ''review'' = Str (ascii ''nice'')"
  by (simp_all add: getProp_def blankRecord_def ascii_def)

lemma getProp_gadget:
  "getProp gadgetRecord ''product'' = Str (ascii ''Gadget'')"
  "getProp gadgetRecord ''price'' = Str (163 # ascii ''1,234.50'')"
  "getProp gadgetRecord ''rating'' = Str (ascii ''-1'')"
  "getProp gadgetRecord ''instock'' = Str (ascii ''maybe'')"
  "getProp gadgetRecord ''launch_date'' = Str (ascii ''2023-12-31'')"
  "getProp gadgetRecord ''review'' = Str (ascii ''ok'')"
  by (simp_all add: getProp_def gadgetRecord_def ascii_def)

lemma trim_examples:
  "trim (ascii ''Widget'') = ascii ''Widget''"
  "trim (ascii ''Gadget'') = ascii ''Gadget''"
  "trim (ascii ''nice'') = ascii ''nice''"
  "trim (ascii ''ok'') = ascii ''ok''"
  by (simp_all add: trim_def isWhiteSpace_def ascii_def)

lemma cleanRow_widget:
  "cleanRow ascii_host widgetRecord =
     \<lparr> product = Some (ascii ''Widget''), price = Some 10000, rating = Some 5,
       instock = Some True, review = Some [], launch_date = Some (ascii ''2024-01-05'') \<rparr>"
  by (simp add: cleanRow_def getProp_widget stringOrEmpty_def trim_examples parseNumber_10000
      parseNumber_7_2 parseBoolean_yes parseDateISO_iso Let_def)

lemma cleanRow_blank:
  "cleanRow ascii_host blankRecord =
     \<lparr> product = None, price = None, rating = None,
       instock = None, review = Some (ascii ''nice''), launch_date = None \<rparr>"
  by (simp add: cleanRow_def getProp_blank stringOrEmpty_def trim_examples parseNumber_blank
      parseBoolean_blank parseDateISO_blank)

lemma cleanRow_gadget:
  "cleanRow ascii_host gadgetRecord =
     \<lparr> product = Some (ascii ''Gadget''), price = Some (2469 / 2), rating = Some 0,
       instock = None, review = Some (ascii ''ok''), launch_date = Some (ascii ''2023-12-31'') \<rparr>"
  by (simp add: cleanRow_def getProp_gadget stringOrEmpty_def trim_examples parseNumber_pound
      parseNumber_minus_1 parseBoolean_maybe parseDateISO_iso Let_def)

lemma parseNumber_1e308: "parseNumber (Str (ascii ''1e308'')) = Some (10 ^ 308)"
proof -
  have a: "ascii ''1e308'' = [49, 101, 51, 48, 56]" by (simp add: ascii_def)
  have t: "trim [49, 101, 51, 48, 56] = [49, 101, 51, 48, 56]"
    by (simp add: trim_def isWhiteSpace_def)
  have d: "strDecimalLiteral [49, 101, 51, 48, 56] = Finite (10 ^ 308)"
    by (simp add: number_eval_defs ascii_def)
  have n: "Number [49, 101, 51, 48, 56] = Finite (10 ^ 308)"
    by (simp add: Number_def t d nonDecimalIntegerLiteral_def toDouble_def)
  show ?thesis
    unfolding a by (subst parseNumber_Str [OF t]) (simp_all add: n)
qed

lemma parseBoolean_no: "parseBoolean ascii_host (Str (ascii ''no'')) = Some False"
  by (simp add: parseBoolean_def ascii_host_def asciiLower_def trim_def isWhiteSpace_def
      TRUE_TOKENS_def FALSE_TOKENS_def ascii_def)

lemma parseDateISO_bulk:
  "parseDateISO ascii_host (Str (ascii ''2024-01-20'')) = Some (ascii ''2024-01-20'')"
  by (simp add: parseDateISO_def trim_def isWhiteSpace_def isoMatch_def isDigit_def ascii_def)

lemma getProp_bulk:
  "getProp bulkRecord ''product'' = Str (ascii ''Bulk'')"
  "getProp bulkRecord ''price'' = Str (ascii ''1e308'')"
  "getProp bulkRecord ''rating'' = Str []"
  "getProp bulkRecord ''instock'' = Str (ascii ''no'')"
  "getProp bulkRecord ''launch_date'' = Str (ascii ''2024-01-20'')"
  "getProp bulkRecord ''review'' = Str []"
  by (simp_all add: getProp_def bulkRecord_def ascii_def)

lemma trim_Bulk: "trim (ascii ''Bulk'') = ascii ''Bulk''"
  by (simp add: trim_def isWhiteSpace_def ascii_def)

lemma cleanRow_bulk:
  "cleanRow ascii_host bulkRecord =
     \<lparr> product = Some (ascii ''Bulk''), price = Some (10 ^ 308), rating = None,
       instock = Some False, review = Some [], launch_date = Some (ascii ''2024-01-20'') \<rparr>"
  by (simp add: cleanRow_def getProp_bulk stringOrEmpty_def trim_Bulk parseNumber_1e308
      parseNumber_blank parseBoolean_no parseDateISO_bulk Let_def)

lemma finalRows_bulk:
  "finalRows ascii_host [bulkRecord, bulkRecord] =
     [cleanRow ascii_host bulkRecord, cleanRow ascii_host bulkRecord]"
  by (simp add: finalRows_def keepRow_def cleanRow_bulk)

lemma tokens_nonempty: "[] \<notin> set TRUE_TOKENS" "[] \<notin> set FALSE_TOKENS"
  by (auto simp: TRUE_TOKENS_def FALSE_TOKENS_def ascii_def)

lemma tokens_disjoint: "t \<in> set TRUE_TOKENS \<Longrightarrow> t \<notin> set FALSE_TOKENS"
  by (auto simp: TRUE_TOKENS_def FALSE_TOKENS_def ascii_def)

section \<open>The Boolean normalizer\<close>

text \<open>
  C1, as stated, fails: the token \<open>maybe\<close> is not empty and is in neither token list, and
  the normalizer returns for it the very value it returns for the empty string, null.
\<close>

theorem parseBoolean_maybe_not_distinct:
  "toLowerCase ascii_host (trim (ascii ''maybe'')) \<noteq> [] \<and>
   toLowerCase ascii_host (trim (ascii ''maybe'')) \<notin> set TRUE_TOKENS \<and>
   toLowerCase ascii_host (trim (ascii ''maybe'')) \<notin> set FALSE_TOKENS \<and>
   parseBoolean ascii_host (Str (ascii ''maybe'')) = parseBoolean ascii_host (Str [])"
  by (simp add: parseBoolean_def ascii_host_def asciiLower_def trim_def isWhiteSpace_def
      TRUE_TOKENS_def FALSE_TOKENS_def ascii_def)

text \<open>
  C1, amended: the normalizer has three results, true, false and null. A value whose
  trimmed, lower-cased form is in the first token list gives true, in the second list false,
  and every other value, a token outside both lists included, gives null, the result for
  null and undefined input; there is no separate \<open>unknown\<close> result.
\<close>

theorem parseBoolean_three_way:
  "(toLowerCase h (trim s) \<in> set TRUE_TOKENS \<longrightarrow> parseBoolean h (Str s) = Some True) \<and>
   (toLowerCase h (trim s) \<in> set FALSE_TOKENS \<longrightarrow> parseBoolean h (Str s) = Some False) \<and>
   (toLowerCase h (trim s) \<notin> set TRUE_TOKENS \<and> toLowerCase h (trim s) \<notin> set FALSE_TOKENS \<longrightarrow>
      parseBoolean h (Str s) = None \<and> parseBoolean h (Str s) = parseBoolean h Null \<and>
      parseBoolean h (Str s) = parseBoolean h Undefined)"
  using tokens_disjoint [of "toLowerCase h (trim s)"] tokens_nonempty
  by (auto simp: parseBoolean_def Let_def)

text \<open>The three cases at \<open>Yes\<close>, \<open>OOS\<close> and \<open>maybe\<close>.\<close>

theorem parseBoolean_three_way_witness:
  "parseBoolean ascii_host (Str (ascii ''Yes'')) = Some True \<and>
   parseBoolean ascii_host (Str (ascii ''OOS'')) = Some False \<and>
   parseBoolean ascii_host (Str (ascii ''maybe'')) = None \<and>
   parseBoolean ascii_host (Str (ascii ''maybe'')) = parseBoolean ascii_host Null"
proof -
  have y: "toLowerCase ascii_host (trim (ascii ''Yes'')) \<in> set TRUE_TOKENS"
    by (simp add: ascii_host_def asciiLower_def trim_def isWhiteSpace_def TRUE_TOKENS_def ascii_def)
  have o: "toLowerCase ascii_host (trim (ascii ''OOS'')) \<in> set FALSE_TOKENS"
    by (simp add: ascii_host_def asciiLower_def trim_def isWhiteSpace_def FALSE_TOKENS_def ascii_def)
  have m: "toLowerCase ascii_host (trim (ascii ''maybe'')) \<notin> set TRUE_TOKENS \<and>
           toLowerCase ascii_host (trim (ascii ''maybe'')) \<notin> set FALSE_TOKENS"
    by (simp add: ascii_host_def asciiLower_def trim_def isWhiteSpace_def TRUE_TOKENS_def
        FALSE_TOKENS_def ascii_def)
  show ?thesis
    using y o m parseBoolean_three_way [of ascii_host "ascii ''Yes''"]
      parseBoolean_three_way [of ascii_host "ascii ''OOS''"]
      parseBoolean_three_way [of ascii_host "ascii ''maybe''"]
    by blast
qed

section \<open>The row cleaner\<close>

lemma getProp_absent:
  assumes "ascii k \<notin> set (Object_keys row)"
  shows "getProp row k = Undefined"
proof -
  have "map_of row (ascii k) = None"
    using assms by (simp add: map_of_eq_None_iff Object_keys_def)
  then show ?thesis by (simp add: getProp_def)
qed

lemma cleanRow_fields:
  "product (cleanRow h row) =
     (let t = trim (stringOrEmpty (getProp row ''product'')) in if t = [] then None else Some t)"
  "price (cleanRow h row) = parseNumber (getProp row ''price'')"
  "rating (cleanRow h row) = map_option clamp05 (parseNumber (getProp row ''rating''))"
  "instock (cleanRow h row) = parseBoolean h (getProp row ''instock'')"
  "review (cleanRow h row) =
     (if getProp row ''review'' \<noteq> Undefined
      then Some (trim (stringOrEmpty (getProp row ''review''))) else None)"
  "launch_date (cleanRow h row) = parseDateISO h (getProp row ''launch_date'')"
  by (simp_all add: cleanRow_def Let_def clamp05_def split: option.splits)

text \<open>
  C2, as stated, fails: the review of the first example record is present and is the empty
  string, which trims to itself, and the cleaned review is the empty string, not null.
\<close>

theorem review_blank_is_empty_string:
  "getProp widgetRecord ''review'' = Str [] \<and> trim [] = [] \<and>
   review (cleanRow ascii_host widgetRecord) = Some [] \<and>
   review (cleanRow ascii_host widgetRecord) \<noteq> None"
  by (simp add: cleanRow_widget getProp_widget trim_examples)

text \<open>
  C2, amended: when the review column is absent the cleaned review is null; when it is
  present with a string, the cleaned review is the trimmed string, which is the empty string
  when the value trims to nothing.
\<close>

theorem cleanRow_review:
  "(ascii ''review'' \<notin> set (Object_keys row) \<longrightarrow> review (cleanRow h row) = None) \<and>
   (getProp row ''review'' = Undefined \<longrightarrow> review (cleanRow h row) = None) \<and>
   (getProp row ''review'' = Str s \<longrightarrow> review (cleanRow h row) = Some (trim s)) \<and>
   (getProp row ''review'' = Str s \<and> trim s = [] \<longrightarrow> review (cleanRow h row) = Some [])"
  using getProp_absent [of "''review''" row]
  by (auto simp: cleanRow_fields stringOrEmpty_def)

text \<open>A record with an empty review and a record without the column.\<close>

theorem cleanRow_review_witness:
  "review (cleanRow ascii_host widgetRecord) = Some [] \<and>
   review (cleanRow ascii_host [(ascii ''product'', Str (ascii ''Widget''))]) = None"
proof -
  have a: "ascii ''review'' \<notin> set (Object_keys [(ascii ''product'', Str (ascii ''Widget''))])"
    by (simp add: Object_keys_def ascii_def)
  have b: "getProp widgetRecord ''review'' = Str [] \<and> trim [] = []"
    by (simp add: getProp_widget)
  show ?thesis
    using a b cleanRow_review [of "[(ascii ''product'', Str (ascii ''Widget''))]" ascii_host "[]"]
      cleanRow_review [of widgetRecord ascii_host "[]"]
    by blast
qed

text \<open>
  C7: the cleaned rating is the normalized rating clamped into the range from 0 to 5: a
  value below 0 becomes 0, a value above 5 becomes 5, a value in the range stays, and null
  stays null; so a cleaned rating that is not null lies between 0 and 5.
\<close>

theorem cleanRow_rating_clamped:
  "rating (cleanRow h row) = map_option clamp05 (parseNumber (getProp row ''rating'')) \<and>
   (\<forall>x. rating (cleanRow h row) = Some x \<longrightarrow> 0 \<le> x \<and> x \<le> 5) \<and>
   (\<forall>x. parseNumber (getProp row ''rating'') = Some x \<and> x < 0 \<longrightarrow> rating (cleanRow h row) = Some 0) \<and>
   (\<forall>x. parseNumber (getProp row ''rating'') = Some x \<and> 5 < x \<longrightarrow> rating (cleanRow h row) = Some 5) \<and>
   (\<forall>x. parseNumber (getProp row ''rating'') = Some x \<and> 0 \<le> x \<and> x \<le> 5 \<longrightarrow>
        rating (cleanRow h row) = Some x) \<and>
   (parseNumber (getProp row ''rating'') = None \<longrightarrow> rating (cleanRow h row) = None)"
proof -
  have r: "rating (cleanRow h row) = map_option clamp05 (parseNumber (getProp row ''rating''))"
    by (rule cleanRow_fields(3))
  have range: "0 \<le> clamp05 x \<and> clamp05 x \<le> 5" for x
    by (simp add: clamp05_def)
  have bounded: "\<forall>x. rating (cleanRow h row) = Some x \<longrightarrow> 0 \<le> x \<and> x \<le> 5"
  proof (intro allI impI)
    fix x
    assume "rating (cleanRow h row) = Some x"
    then obtain y where "x = clamp05 y"
      unfolding r by (cases "parseNumber (getProp row ''rating'')") auto
    then show "0 \<le> x \<and> x \<le> 5"
      using range by simp
  qed
  show ?thesis
    using bounded by (auto simp: r clamp05_def)
qed

text \<open>The ratings \<open>7.2\<close> and \<open>-1\<close> of the example records become 5 and 0.\<close>

theorem cleanRow_rating_clamped_witness:
  "parseNumber (getProp widgetRecord ''rating'') = Some (72 / 10) \<and>
   rating (cleanRow ascii_host widgetRecord) = Some 5 \<and>
   parseNumber (getProp gadgetRecord ''rating'') = Some (- 1) \<and>
   rating (cleanRow ascii_host gadgetRecord) = Some 0"
proof -
  have w: "parseNumber (getProp widgetRecord ''rating'') = Some (72 / 10) \<and> (5::rat) < 72 / 10"
    by (simp add: getProp_widget parseNumber_7_2)
  have g: "parseNumber (getProp gadgetRecord ''rating'') = Some (- 1) \<and> (- 1 :: rat) < 0"
    by (simp add: getProp_gadget parseNumber_minus_1)
  show ?thesis
    using w g cleanRow_rating_clamped [of ascii_host widgetRecord]
      cleanRow_rating_clamped [of ascii_host gadgetRecord]
    by blast
qed

section \<open>Numeric statistics\<close>

lemma roundDouble_ascii_host [simp]: "roundDouble ascii_host q = q"
  by (simp add: ascii_host_def)

lemma toDouble_not_NaN: "toDouble q \<noteq> NaN"
  by (simp add: toDouble_def)

lemma js_add_not_NaN: "a \<noteq> NaN \<Longrightarrow> js_add h a x \<noteq> NaN"
  using toDouble_not_NaN [of "q + x" for q]
  by (cases a) (auto simp: js_add_def split: jsnumber.splits)

lemma js_add_loop_not_NaN: "a \<noteq> NaN \<Longrightarrow> foldl (js_add h) a xs \<noteq> NaN"
  by (induction xs arbitrary: a) (simp_all add: js_add_not_NaN)

lemma js_sum_not_NaN: "js_sum h xs \<noteq> NaN"
  by (simp add: js_sum_def js_add_loop_not_NaN)

lemma js_sum_Nil: "js_sum h [] = Finite 0"
  by (simp add: js_sum_def)

lemma js_sum_snoc: "js_sum h (xs @ [x]) = js_add h (js_sum h xs) x"
  by (simp add: js_sum_def)

lemma js_div_not_NaN: "a \<noteq> NaN \<Longrightarrow> n \<noteq> 0 \<Longrightarrow> js_div h a n \<noteq> NaN"
  by (cases a) (simp_all add: js_div_def)

text \<open>Without rounding and without overflow the sum is the exact sum.\<close>

lemma js_add_loop_exact:
  assumes "roundDouble h = (\<lambda>q. q)" "\<bar>a\<bar> + sum_list (map abs xs) < 2 ^ 1024 - 2 ^ 970"
  shows "foldl (js_add h) (Finite a) xs = Finite (a + sum_list xs)"
  using assms(2)
proof (induction xs arbitrary: a)
  case Nil
  show ?case by simp
next
  case (Cons x xs)
  have "\<bar>a + x\<bar> \<le> \<bar>a\<bar> + \<bar>x\<bar>" by (rule abs_triangle_ineq)
  moreover have "0 \<le> sum_list (map abs xs)" by (induction xs) simp_all
  ultimately have b: "\<bar>a + x\<bar> + sum_list (map abs xs) < 2 ^ 1024 - 2 ^ 970"
    and c: "\<bar>a + x\<bar> < 2 ^ 1024 - 2 ^ 970"
    using Cons.prems by simp_all
  have "js_add h (Finite a) x = Finite (a + x)"
    using c by (simp add: js_add_def toDouble_def assms(1) abs_less_iff)
  then show ?case
    using Cons.IH [OF b] by (simp add: add.assoc)
qed

lemma js_sum_exact:
  assumes "roundDouble h = (\<lambda>q. q)" "sum_list (map abs xs) < 2 ^ 1024 - 2 ^ 970"
  shows "js_sum h xs = Finite (sum_list xs)"
  using js_add_loop_exact [OF assms(1), of 0 xs] assms(2) by (simp add: js_sum_def)

lemma stats_loop:
  "foldl (\<lambda>(mn, mx, sm) x.
            (if x < mn then x else mn, if x > mx then x else mx, js_add h sm x))
     (mn, mx, sm) arr =
   (Min (insert mn (set arr)), Max (insert mx (set arr)), foldl (js_add h) sm arr)"
proof (induction arr arbitrary: mn mx sm)
  case Nil
  show ?case by simp
next
  case (Cons x arr)
  have mn: "Min (insert (if x < mn then x else mn) (set arr)) = Min (insert mn (insert x (set arr)))"
    by (cases "set arr = {}") (auto simp: min_def)
  have mx: "Max (insert (if mx < x then x else mx) (set arr)) = Max (insert mx (insert x (set arr)))"
    by (cases "set arr = {}") (auto simp: max_def)
  show ?case
    by (simp add: Cons.IH mn mx)
qed

lemma stats_nonempty:
  assumes "arr \<noteq> []"
  shows "stats h arr =
    \<lparr> stats_count = length arr, stats_min = Some (Min (set arr)), stats_max = Some (Max (set arr)),
      stats_mean = Some (js_div h (js_sum h arr) (length arr)) \<rparr>"
proof -
  have "insert (hd arr) (set arr) = set arr"
    using assms by (cases arr) auto
  then show ?thesis
    using assms by (simp add: stats_def stats_loop js_sum_def)
qed

lemma numeric_loop:
  "numeric_price (foldl (step h) st rows) = numeric_price st @ nonNull price rows \<and>
   numeric_rating (foldl (step h) st rows) = numeric_rating st @ nonNull rating rows"
proof (induction rows arbitrary: st)
  case Nil
  show ?case by (simp add: nonNull_def map_filter_simps)
next
  case (Cons r rows)
  show ?case
    by (cases "price r"; cases "rating r") (simp_all add: Cons.IH nonNull_def map_filter_simps)
qed

lemma numeric_arrays:
  "numeric_price (foldl (step h) initState rows) = nonNull price rows"
  "numeric_rating (foldl (step h) initState rows) = nonNull rating rows"
  by (simp_all add: numeric_loop initState_def)

lemma nonNull_Nil_iff: "nonNull f rows = [] \<longleftrightarrow> (\<forall>r\<in>set rows. f r = None)"
  by (induction rows) (auto simp: nonNull_def map_filter_simps split: option.splits)

lemma js_sum_bulk: "js_sum ascii_host [10 ^ 308, 10 ^ 308] = PosInfinity"
  by (simp add: js_sum_def js_add_def toDouble_def)

lemma stats_price_bulk:
  "stats_price (computeAnalytics ascii_host [cleanRow ascii_host bulkRecord, cleanRow ascii_host bulkRecord]) =
     \<lparr> stats_count = 2, stats_min = Some (10 ^ 308), stats_max = Some (10 ^ 308),
       stats_mean = Some PosInfinity \<rparr>"
proof -
  let ?rows = "[cleanRow ascii_host bulkRecord, cleanRow ascii_host bulkRecord]"
  have n: "[10 ^ 308, 10 ^ 308 :: rat] \<noteq> []" by simp
  have p: "nonNull price ?rows = [10 ^ 308, 10 ^ 308]"
    by (simp add: nonNull_def map_filter_simps cleanRow_bulk)
  have "stats_price (computeAnalytics ascii_host ?rows) = stats ascii_host (nonNull price ?rows)"
    by (simp only: computeAnalytics_simps numeric_arrays)
  also have "\<dots> = \<lparr> stats_count = 2, stats_min = Some (10 ^ 308), stats_max = Some (10 ^ 308),
       stats_mean = Some PosInfinity \<rparr>"
    unfolding p stats_nonempty [OF n, of ascii_host, unfolded js_sum_bulk]
    by (simp add: js_div_def)
  finally show ?thesis .
qed

text \<open>
  C8: on the empty array the statistics are count 0 and null for min, max and mean, and no
  division is made. The only division of \<open>stats\<close> is reached for a non-empty array, where
  the divisor, the length, is not zero: the mean is the quotient of the sum of the array, as
  the loop adds it up, by the length, and it is never NaN, the quotient of the empty sum by
  zero. The price and rating statistics of the aggregator are those of the non-null prices
  and ratings, the empty ones when every price, or every rating, is null.
\<close>

theorem stats_empty_and_division_guarded:
  "stats h [] = \<lparr> stats_count = 0, stats_min = None, stats_max = None, stats_mean = None \<rparr> \<and>
   (arr \<noteq> [] \<longrightarrow>
      length arr \<noteq> 0 \<and>
      stats_count (stats h arr) = length arr \<and>
      stats_mean (stats h arr) = Some (js_div h (js_sum h arr) (length arr))) \<and>
   (arr = [] \<longrightarrow> stats_mean (stats h arr) = None) \<and>
   js_sum h arr \<noteq> NaN \<and>
   stats_mean (stats h arr) \<noteq> Some NaN \<and>
   (\<forall>q. arr \<noteq> [] \<and> js_sum h arr = Finite q \<longrightarrow>
      stats_mean (stats h arr) = Some (Finite (roundDouble h (q / of_nat (length arr))))) \<and>
   (arr \<noteq> [] \<and> js_sum h arr = PosInfinity \<longrightarrow> stats_mean (stats h arr) = Some PosInfinity) \<and>
   (arr \<noteq> [] \<and> js_sum h arr = NegInfinity \<longrightarrow> stats_mean (stats h arr) = Some NegInfinity) \<and>
   stats_price (computeAnalytics h rows) = stats h (nonNull price rows) \<and>
   stats_rating (computeAnalytics h rows) = stats h (nonNull rating rows) \<and>
   ((\<forall>r\<in>set rows. price r = None) \<longrightarrow>
      stats_price (computeAnalytics h rows) =
        \<lparr> stats_count = 0, stats_min = None, stats_max = None, stats_mean = None \<rparr>) \<and>
   ((\<forall>r\<in>set rows. rating r = None) \<longrightarrow>
      stats_rating (computeAnalytics h rows) =
        \<lparr> stats_count = 0, stats_min = None, stats_max = None, stats_mean = None \<rparr>)"
proof -
  have e: "stats h [] = \<lparr> stats_count = 0, stats_min = None, stats_max = None, stats_mean = None \<rparr>"
    by (simp add: stats_def)
  have m: "stats_mean (stats h arr) =
      (if arr = [] then None else Some (js_div h (js_sum h arr) (length arr)))"
    by (simp add: e stats_nonempty)
  have c: "arr \<noteq> [] \<longrightarrow> stats_count (stats h arr) = length arr"
    by (simp add: stats_nonempty)
  have n: "stats_mean (stats h arr) \<noteq> Some NaN"
    using js_div_not_NaN [OF js_sum_not_NaN, of "length arr" h h arr] by (simp add: m)
  have d: "\<forall>q. arr \<noteq> [] \<and> js_sum h arr = Finite q \<longrightarrow>
      stats_mean (stats h arr) = Some (Finite (roundDouble h (q / of_nat (length arr))))"
    by (simp add: m js_div_def)
  have i: "(arr \<noteq> [] \<and> js_sum h arr = PosInfinity \<longrightarrow> stats_mean (stats h arr) = Some PosInfinity) \<and>
      (arr \<noteq> [] \<and> js_sum h arr = NegInfinity \<longrightarrow> stats_mean (stats h arr) = Some NegInfinity)"
    by (simp add: m js_div_def)
  have p: "(\<forall>r\<in>set rows. price r = None) \<longrightarrow> nonNull price rows = []"
    by (simp add: nonNull_Nil_iff)
  have r: "(\<forall>r\<in>set rows. rating r = None) \<longrightarrow> nonNull rating rows = []"
    by (simp add: nonNull_Nil_iff)
  have a: "stats_price (computeAnalytics h rows) = stats h (nonNull price rows) \<and>
      stats_rating (computeAnalytics h rows) = stats h (nonNull rating rows)"
    by (simp add: computeAnalytics_simps numeric_arrays)
  show ?thesis
    using e m c n d i p r a js_sum_not_NaN [of h arr] by (simp add: e)
qed

text \<open>
  The statistics of one price, of two prices whose sum overflows, where the mean is an
  infinity, alone and as the prices of two rows of the aggregator, and of the blank row
  alone, which has neither a price nor a rating.
\<close>

theorem stats_empty_and_division_guarded_witness:
  "stats ascii_host [10000] = \<lparr> stats_count = 1, stats_min = Some 10000, stats_max = Some 10000,
                     stats_mean = Some (Finite 10000) \<rparr> \<and>
   js_sum ascii_host [10 ^ 308, 10 ^ 308] = PosInfinity \<and>
   stats_mean (stats ascii_host [10 ^ 308, 10 ^ 308]) = Some PosInfinity \<and>
   stats_mean (stats_price (computeAnalytics ascii_host (finalRows ascii_host [bulkRecord, bulkRecord])))
     = Some PosInfinity \<and>
   stats_price (computeAnalytics ascii_host [cleanRow ascii_host blankRecord]) =
     \<lparr> stats_count = 0, stats_min = None, stats_max = None, stats_mean = None \<rparr> \<and>
   stats_rating (computeAnalytics ascii_host [cleanRow ascii_host blankRecord]) =
     \<lparr> stats_count = 0, stats_min = None, stats_max = None, stats_mean = None \<rparr>"
proof -
  have a: "[10000::rat] \<noteq> []" by simp
  have b: "\<forall>r\<in>set [cleanRow ascii_host blankRecord]. price r = None"
    by (simp add: cleanRow_blank)
  have c: "\<forall>r\<in>set [cleanRow ascii_host blankRecord]. rating r = None"
    by (simp add: cleanRow_blank)
  have s1: "js_sum ascii_host [10000] = Finite 10000"
    by (simp add: js_sum_def js_add_def toDouble_def)
  have d: "stats ascii_host [10000] = \<lparr> stats_count = 1, stats_min = Some 10000, stats_max = Some 10000,
                     stats_mean = Some (Finite 10000) \<rparr>"
    by (simp add: stats_nonempty s1 js_div_def)
  have s2: "[10 ^ 308, 10 ^ 308 :: rat] \<noteq> [] \<and> js_sum ascii_host [10 ^ 308, 10 ^ 308] = PosInfinity"
    by (simp add: js_sum_def js_add_def toDouble_def)
  have s3: "stats_mean (stats_price (computeAnalytics ascii_host
      (finalRows ascii_host [bulkRecord, bulkRecord]))) = Some PosInfinity"
    unfolding finalRows_bulk stats_price_bulk by simp
  show ?thesis
    using a b c d s2 s3
      stats_empty_and_division_guarded [of ascii_host "[10 ^ 308, 10 ^ 308]"
        "[cleanRow ascii_host blankRecord]"]
    by blast
qed

section \<open>Header validation and the pipeline\<close>

lemma upload_missing:
  assumes "fst (validateColumns (headersOf records)) \<noteq> []"
  shows "upload h records =
    SchemaError (fst (validateColumns (headersOf records))) REQUIRED_COLUMNS (headersOf records)"
  using assms by (cases "validateColumns (headersOf records)") (simp add: upload_def Let_def)

lemma upload_valid:
  assumes "fst (validateColumns (headersOf records)) = []"
  shows "upload h records =
    Success (if snd (validateColumns (headersOf records)) \<noteq> []
             then Some (snd (validateColumns (headersOf records))) else None)
      (computeAnalytics h (finalRows h records)) (take 8 (finalRows h records))"
  using assms by (cases "validateColumns (headersOf records)") (simp add: upload_def Let_def)

lemma missing_columns:
  "fst (validateColumns headers) = filter (\<lambda>c. c \<notin> set headers) REQUIRED_COLUMNS"
  by (simp add: validateColumns_def)

lemma headersOf_Cons: "headersOf (r # records) = Object_keys r"
  by (simp add: headersOf_def)

lemma Object_keys_examples:
  "Object_keys widgetRecord =
     [ascii ''product'', ascii ''price'', ascii ''rating'', ascii ''instock'',
      ascii ''launch_date'', ascii ''review'']"
  "Object_keys blankRecord =
     [ascii ''product'', ascii ''price'', ascii ''rating'', ascii ''instock'',
      ascii ''launch_date'', ascii ''review'']"
  "Object_keys gadgetRecord =
     [ascii ''product'', ascii ''price'', ascii ''rating'', ascii ''instock'',
      ascii ''launch_date'', ascii ''review'']"
  by (simp_all add: Object_keys_def widgetRecord_def blankRecord_def gadgetRecord_def)

lemma validateColumns_examples:
  "validateColumns
     [ascii ''product'', ascii ''price'', ascii ''rating'', ascii ''instock'',
      ascii ''launch_date'', ascii ''review'']
   = ([], [])"
  "validateColumns [ascii ''product'', ascii ''price'']
   = ([ascii ''rating'', ascii ''instock'', ascii ''launch_date''], [])"
  by (simp_all add: validateColumns_def REQUIRED_COLUMNS_def OPTIONAL_COLUMNS_def ascii_def)

text \<open>
  C4: when a required column is not among the headers of the input, the response is the
  schema error whose details are the missing required columns (in the order of the required
  list), the whole required list and the headers found. The response is fixed by the headers
  alone: it carries no analytics and does not depend on the host functions that cleaning a
  row calls.
\<close>

theorem upload_schema_error:
  assumes "\<exists>c\<in>set REQUIRED_COLUMNS. c \<notin> set (headersOf records)"
  shows "upload h records =
           SchemaError (filter (\<lambda>c. c \<notin> set (headersOf records)) REQUIRED_COLUMNS)
             REQUIRED_COLUMNS (headersOf records) \<and>
         set (details_missing (upload h records)) = set REQUIRED_COLUMNS - set (headersOf records) \<and>
         details_missing (upload h records) \<noteq> [] \<and>
         upload h records = upload h' records \<and>
         (\<forall>w a rows. upload h records \<noteq> Success w a rows)"
proof -
  have ne: "filter (\<lambda>c. c \<notin> set (headersOf records)) REQUIRED_COLUMNS \<noteq> []"
    using assms by (simp add: filter_empty_conv)
  then have u: "upload h records =
      SchemaError (filter (\<lambda>c. c \<notin> set (headersOf records)) REQUIRED_COLUMNS)
        REQUIRED_COLUMNS (headersOf records)" for h
    using upload_missing [of records h] by (simp add: missing_columns)
  show ?thesis
    using ne by (auto simp: u)
qed

text \<open>The headers \<open>product\<close> and \<open>price\<close> alone: the other three columns are missing.\<close>

theorem upload_schema_error_witness:
  "upload ascii_host [[(ascii ''product'', Str (ascii ''Widget'')), (ascii ''price'', Str (ascii ''5''))]] =
     SchemaError (map ascii [''rating'', ''instock'', ''launch_date''])
       (map ascii [''product'', ''price'', ''rating'', ''instock'', ''launch_date''])
       (map ascii [''product'', ''price''])"
proof -
  let ?recs = "[[(ascii ''product'', Str (ascii ''Widget'')), (ascii ''price'', Str (ascii ''5''))]]"
  have hd: "headersOf ?recs = [ascii ''product'', ascii ''price'']"
    by (simp add: headersOf_def Object_keys_def)
  have f: "filter (\<lambda>c. c \<notin> set (headersOf ?recs)) REQUIRED_COLUMNS =
      [ascii ''rating'', ascii ''instock'', ascii ''launch_date'']"
    unfolding hd missing_columns [symmetric] by (simp add: validateColumns_examples)
  have "filter (\<lambda>c. c \<notin> set (headersOf ?recs)) REQUIRED_COLUMNS \<noteq> []"
    unfolding f by simp
  then have ex: "\<exists>c\<in>set REQUIRED_COLUMNS. c \<notin> set (headersOf ?recs)"
    unfolding filter_empty_conv by blast
  have t: "upload ascii_host ?recs =
      SchemaError (filter (\<lambda>c. c \<notin> set (headersOf ?recs)) REQUIRED_COLUMNS)
        REQUIRED_COLUMNS (headersOf ?recs)"
    using upload_schema_error [OF ex, of ascii_host ascii_host] by blast
  show ?thesis
    unfolding t by (simp add: headersOf_def Object_keys_def REQUIRED_COLUMNS_def ascii_def)
qed

lemma keepRow_examples:
  "keepRow (cleanRow ascii_host widgetRecord)"
  "\<not> keepRow (cleanRow ascii_host blankRecord)"
  "keepRow (cleanRow ascii_host gadgetRecord)"
  by (simp_all add: keepRow_def cleanRow_widget cleanRow_blank cleanRow_gadget)

text \<open>
  C3, as stated, fails: for the valid input of the blank record followed by the first example
  record, the first cleaned rows of the input begin with the cleaned blank row, and the
  sample consists of the cleaned second row only.
\<close>

theorem sample_not_first_cleaned_rows:
  "fst (validateColumns (headersOf [blankRecord, widgetRecord])) = [] \<and>
   sampleCleanedRows (upload ascii_host [blankRecord, widgetRecord]) =
     [cleanRow ascii_host widgetRecord] \<and>
   take 8 (map (cleanRow ascii_host) [blankRecord, widgetRecord]) =
     [cleanRow ascii_host blankRecord, cleanRow ascii_host widgetRecord] \<and>
   sampleCleanedRows (upload ascii_host [blankRecord, widgetRecord]) \<noteq>
     take 8 (map (cleanRow ascii_host) [blankRecord, widgetRecord])"
proof -
  have v: "fst (validateColumns (headersOf [blankRecord, widgetRecord])) = []"
    by (simp add: headersOf_Cons Object_keys_examples validateColumns_examples)
  show ?thesis
    by (simp add: v upload_valid [OF v] finalRows_def keepRow_examples)
qed

text \<open>
  C3, amended: for every input that passes the header validation, the response is a success
  whose \<open>sampleCleanedRows\<close> are the first 8 of the cleaned rows that the row filter keeps
  (all of them when it keeps fewer than 8), each the cleaned form of a record of the input.
\<close>

theorem sample_first_final_rows:
  assumes "fst (validateColumns (headersOf records)) = []"
  shows "upload h records =
           Success (warnings (upload h records)) (analytics_of (upload h records))
             (take 8 (filter keepRow (map (cleanRow h) records))) \<and>
         sampleCleanedRows (upload h records) = take 8 (filter keepRow (map (cleanRow h) records)) \<and>
         length (sampleCleanedRows (upload h records)) =
           min 8 (length (filter keepRow (map (cleanRow h) records))) \<and>
         set (sampleCleanedRows (upload h records)) \<subseteq> cleanRow h ` set records"
proof -
  have "set (take 8 (filter keepRow (map (cleanRow h) records))) \<subseteq> cleanRow h ` set records"
    using set_take_subset [of 8 "filter keepRow (map (cleanRow h) records)"] by auto
  then show ?thesis
    by (simp add: upload_valid [OF assms] finalRows_def min.commute)
qed

theorem sample_first_final_rows_witness:
  "sampleCleanedRows (upload ascii_host [blankRecord, widgetRecord]) =
     [cleanRow ascii_host widgetRecord]"
proof -
  have v: "fst (validateColumns (headersOf [blankRecord, widgetRecord])) = []"
    by (simp add: headersOf_Cons Object_keys_examples validateColumns_examples)
  show ?thesis
    using sample_first_final_rows [OF v, of ascii_host]
    by (simp add: keepRow_examples)
qed

section \<open>The row filter\<close>

lemma upload_headers_only:
  assumes "headersOf records = headersOf records'" "finalRows h records = finalRows h records'"
  shows "upload h records = upload h records'"
  unfolding upload_def assms ..

text \<open>
  C6: a cleaned row whose product, price, rating, instock and launch date are all null is
  dropped by the row filter, whatever its review is. The rows passed on, and with them the
  whole analytics (total, missing counts, statistics, product ranking, instock buckets and
  monthly series), are those of the input without that row; so is the whole response when
  the row is not the first record, from which the headers are read.
\<close>

theorem all_null_row_dropped:
  assumes "product r = None" "price r = None" "rating r = None" "instock r = None"
    "launch_date r = None"
  shows "\<not> keepRow r \<and> \<not> keepRow (r\<lparr>review := v\<rparr>) \<and>
         r \<notin> set (filter keepRow (xs @ r # ys)) \<and>
         filter keepRow (xs @ r # ys) = filter keepRow (xs @ ys) \<and>
         computeAnalytics h (filter keepRow (xs @ r # ys)) = computeAnalytics h (filter keepRow (xs @ ys)) \<and>
         totalRows (computeAnalytics h (filter keepRow (xs @ r # ys))) = length (filter keepRow (xs @ ys)) \<and>
         (cleanRow h rec = r \<longrightarrow>
            finalRows h (pre @ rec # post) = finalRows h (pre @ post) \<and>
            (pre \<noteq> [] \<longrightarrow> upload h (pre @ rec # post) = upload h (pre @ post)))"
proof -
  have k: "\<not> keepRow r" "\<not> keepRow (r\<lparr>review := v\<rparr>)"
    using assms by (simp_all add: keepRow_def)
  have f: "filter keepRow (xs @ r # ys) = filter keepRow (xs @ ys)" for xs ys
    using k by simp
  have p: "finalRows h (pre @ rec # post) = finalRows h (pre @ post)" if "cleanRow h rec = r"
    using that f [of "map (cleanRow h) pre" "map (cleanRow h) post"] by (simp add: finalRows_def)
  have u: "upload h (pre @ rec # post) = upload h (pre @ post)"
    if "cleanRow h rec = r" "pre \<noteq> []"
  proof (rule upload_headers_only)
    show "headersOf (pre @ rec # post) = headersOf (pre @ post)"
      using that(2) by (simp add: headersOf_def)
    show "finalRows h (pre @ rec # post) = finalRows h (pre @ post)"
      using that(1) by (rule p)
  qed
  show ?thesis
    using k p u by (simp add: f computeAnalytics_simps)
qed

text \<open>The blank record between the two other example records: two rows are left.\<close>

theorem all_null_row_dropped_witness:
  "finalRows ascii_host [widgetRecord, blankRecord, gadgetRecord] =
     finalRows ascii_host [widgetRecord, gadgetRecord] \<and>
   upload ascii_host [widgetRecord, blankRecord, gadgetRecord] =
     upload ascii_host [widgetRecord, gadgetRecord] \<and>
   review (cleanRow ascii_host blankRecord) = Some (ascii ''nice'') \<and>
   totalRows (computeAnalytics ascii_host (finalRows ascii_host [widgetRecord, blankRecord, gadgetRecord])) = 2"
proof -
  let ?r = "cleanRow ascii_host blankRecord"
  have n: "product ?r = None" "price ?r = None" "rating ?r = None" "instock ?r = None"
    "launch_date ?r = None"
    by (simp_all add: cleanRow_blank)
  have t: "finalRows ascii_host [widgetRecord, gadgetRecord] =
      [cleanRow ascii_host widgetRecord, cleanRow ascii_host gadgetRecord]"
    by (simp add: finalRows_def keepRow_examples)
  show ?thesis
    using all_null_row_dropped [OF n, of None "[]" "[]" ascii_host blankRecord
        "[widgetRecord]" "[gadgetRecord]"]
    by (simp add: cleanRow_blank t computeAnalytics_simps)
qed

section \<open>Sorting and the month accumulators\<close>

lemma set_insertBy: "set (insertBy cmp x ys) = insert x (set ys)"
  by (induction ys) auto

lemma set_Array_sort: "set (Array_sort cmp xs) = set xs"
  unfolding Array_sort_def by (induction xs) (simp_all add: set_insertBy)

lemma distinct_keys_insertBy:
  "distinct (map fst (insertBy cmp x ys)) \<longleftrightarrow> fst x \<notin> fst ` set ys \<and> distinct (map fst ys)"
  by (induction ys) (auto simp: set_insertBy)

lemma distinct_keys_Array_sort:
  "distinct (map fst (Array_sort cmp xs)) \<longleftrightarrow> distinct (map fst xs)"
  unfolding Array_sort_def
  by (induction xs) (simp_all add: distinct_keys_insertBy set_Array_sort [unfolded Array_sort_def])

lemma localeCompare_le: "localeCompare a b \<le> 0 \<longleftrightarrow> a \<le> b"
  by (auto simp: localeCompare_def)

lemma sorted_keys_insertBy:
  "sorted (map fst (insertBy (\<lambda>a b. localeCompare (fst a) (fst b)) x ys)) = sorted (map fst ys)"
  by (induction ys) (auto simp: set_insertBy localeCompare_le)

lemma sorted_keys_Array_sort:
  "sorted (map fst (Array_sort (\<lambda>a b. localeCompare (fst a) (fst b)) xs))"
  unfolding Array_sort_def by (induction xs) (simp_all add: sorted_keys_insertBy)

lemma nonNull_append: "nonNull f (xs @ ys) = nonNull f xs @ nonNull f ys"
  by (simp add: nonNull_def map_filter_def)

lemma nonNull_single: "nonNull f [r] = (case f r of None \<Rightarrow> [] | Some x \<Rightarrow> [x])"
  by (simp add: nonNull_def map_filter_simps split: option.splits)

lemma bucketAcc_Nil:
  "bucketAcc h [] = \<lparr> acc_count = 0, priceSum = Finite 0, priceN = 0, ratingSum = Finite 0, ratingN = 0 \<rparr>"
  by (simp add: bucketAcc_def nonNull_def map_filter_simps js_sum_def)

lemma bucketRows_snoc:
  "bucketRows k (rows @ [r]) =
     (case launch_date r of
        None \<Rightarrow> bucketRows k rows
      | Some d \<Rightarrow> if take 7 d = k then bucketRows k rows @ [r] else bucketRows k rows)"
  by (simp add: bucketRows_def split: option.splits)

lemma accumulateMonth_None: "launch_date r = None \<Longrightarrow> accumulateMonth h ma r = ma"
  by (simp add: accumulateMonth_def)

lemma accumulateMonth_Some:
  assumes "launch_date r = Some d" "d \<noteq> []"
    "(case map_of ma (take 7 d) of
        None \<Rightarrow> \<lparr> acc_count = 0, priceSum = Finite 0, priceN = 0, ratingSum = Finite 0, ratingN = 0 \<rparr>
      | Some a \<Rightarrow> a) = bucketAcc h B"
  shows "accumulateMonth h ma r = AList.update (take 7 d) (bucketAcc h (B @ [r])) ma"
  using assms
  by (cases "price r"; cases "rating r")
     (simp_all add: accumulateMonth_def Let_def bucketAcc_def nonNull_append nonNull_single
        js_sum_def)

lemma monthAcc_loop:
  assumes "\<forall>r\<in>set rows. launch_date r \<noteq> Some []"
  shows "distinct (map fst (monthAcc (foldl (step h) initState rows))) \<and>
         (\<forall>k. map_of (monthAcc (foldl (step h) initState rows)) k =
               (if bucketRows k rows = [] then None else Some (bucketAcc h (bucketRows k rows))))"
  using assms
proof (induction rows rule: rev_induct)
  case Nil
  show ?case by (simp add: initState_def bucketRows_def)
next
  case (snoc r rows)
  let ?ma = "monthAcc (foldl (step h) initState rows)"
  have IH: "distinct (map fst ?ma)"
    "\<And>k. map_of ?ma k = (if bucketRows k rows = [] then None else Some (bucketAcc h (bucketRows k rows)))"
    using snoc by simp_all
  show ?case
  proof (cases "launch_date r")
    case None
    then show ?thesis
      using IH by (simp add: accumulateMonth_None bucketRows_snoc)
  next
    case (Some d)
    then have d: "d \<noteq> []" using snoc.prems by auto
    have "(case map_of ?ma (take 7 d) of
        None \<Rightarrow> \<lparr> acc_count = 0, priceSum = Finite 0, priceN = 0, ratingSum = Finite 0, ratingN = 0 \<rparr>
      | Some a \<Rightarrow> a) = bucketAcc h (bucketRows (take 7 d) rows)"
      by (simp add: IH(2) bucketAcc_Nil)
    then have a: "accumulateMonth h ?ma r =
        AList.update (take 7 d) (bucketAcc h (bucketRows (take 7 d) rows @ [r])) ?ma"
      by (rule accumulateMonth_Some [OF Some d])
    show ?thesis
      using IH(1) by (simp add: a Some bucketRows_snoc distinct_update update_conv' IH(2))
  qed
qed

lemma finalizeMonth_simps [simp]:
  "fst (finalizeMonth h (k, a)) = k"
  "month (snd (finalizeMonth h (k, a))) = k"
  "count (snd (finalizeMonth h (k, a))) = acc_count a"
  "avgPrice (snd (finalizeMonth h (k, a))) =
     (if priceN a \<noteq> 0 then Some (js_div h (priceSum a) (priceN a)) else None)"
  "avgRating (snd (finalizeMonth h (k, a))) =
     (if ratingN a \<noteq> 0 then Some (js_div h (ratingSum a) (ratingN a)) else None)"
  by (simp_all add: finalizeMonth_def)

lemma finalize_bucketAcc:
  "count (snd (finalizeMonth h (k, bucketAcc h B))) = length B"
  "avgPrice (snd (finalizeMonth h (k, bucketAcc h B))) = average h (nonNull price B)"
  "avgRating (snd (finalizeMonth h (k, bucketAcc h B))) = average h (nonNull rating B)"
  by (simp_all add: bucketAcc_def average_def)

lemma monthly_keys:
  "map month (monthly (computeAnalytics h rows)) =
     map fst (Array_sort (\<lambda>a b. localeCompare (fst a) (fst b))
       (map (finalizeMonth h) (monthAcc (foldl (step h) initState rows))))"
proof -
  let ?L = "Array_sort (\<lambda>a b. localeCompare (fst a) (fst b))
       (map (finalizeMonth h) (monthAcc (foldl (step h) initState rows)))"
  have "\<forall>e\<in>set ?L. month (snd e) = fst e"
    by (auto simp: set_Array_sort)
  then show ?thesis
    by (simp add: computeAnalytics_simps)
qed

lemma map_fst_finalizeMonth: "map (fst \<circ> finalizeMonth h) ma = map fst ma"
  by (induction ma) auto

lemma monthly_sorted:
  assumes "distinct (map fst (monthAcc (foldl (step h) initState rows)))"
  shows "sorted_wrt (<) (map month (monthly (computeAnalytics h rows)))"
  unfolding monthly_keys strict_sorted_iff
  using assms
  by (simp add: sorted_keys_Array_sort distinct_keys_Array_sort map_fst_finalizeMonth)

lemma monthly_key_set:
  "set (map month (monthly (computeAnalytics h rows))) =
     fst ` set (monthAcc (foldl (step h) initState rows))"
proof -
  have "fst ` finalizeMonth h ` set ma = fst ` set ma" for ma
    by (force simp: image_iff)
  then show ?thesis
    unfolding monthly_keys by (simp add: set_Array_sort)
qed

lemma monthly_entry:
  assumes "e \<in> set (monthly (computeAnalytics h rows))"
  shows "\<exists>a. (month e, a) \<in> set (monthAcc (foldl (step h) initState rows)) \<and>
             e = snd (finalizeMonth h (month e, a))"
proof -
  from assms obtain k a where ka: "(k, a) \<in> set (monthAcc (foldl (step h) initState rows))"
      and e: "e = snd (finalizeMonth h (k, a))"
    by (auto simp: computeAnalytics_simps set_Array_sort)
  then have k: "month e = k" by simp
  show ?thesis
    unfolding k using ka e by blast
qed

lemma bucketRows_nonempty_iff:
  "bucketRows k rows \<noteq> [] \<longleftrightarrow> (\<exists>r d. r \<in> set rows \<and> launch_date r = Some d \<and> take 7 d = k)"
  by (auto simp: bucketRows_def filter_empty_conv split: option.splits)

text \<open>
  The monthly series of rows whose launch date, when it is not null, is not the empty string.
\<close>

lemma monthly_of_dated_rows:
  assumes "\<forall>r\<in>set rows. launch_date r \<noteq> Some []"
  shows "sorted_wrt (<) (map month (monthly (computeAnalytics h rows)))"
    and "set (map month (monthly (computeAnalytics h rows))) =
           {take 7 d |r d. r \<in> set rows \<and> launch_date r = Some d}"
    and "e \<in> set (monthly (computeAnalytics h rows)) \<Longrightarrow>
           count e = length (bucketRows (month e) rows) \<and>
           avgPrice e = average h (nonNull price (bucketRows (month e) rows)) \<and>
           avgRating e = average h (nonNull rating (bucketRows (month e) rows))"
proof -
  let ?ma = "monthAcc (foldl (step h) initState rows)"
  have d: "distinct (map fst ?ma)"
    and m: "\<And>k. map_of ?ma k =
      (if bucketRows k rows = [] then None else Some (bucketAcc h (bucketRows k rows)))"
    using monthAcc_loop [OF assms] by simp_all
  show "sorted_wrt (<) (map month (monthly (computeAnalytics h rows)))"
    using d by (rule monthly_sorted)
  have "fst ` set ?ma = {k. bucketRows k rows \<noteq> []}"
    using m by (auto simp: dom_map_of_conv_image_fst [symmetric] dom_def)
  then show "set (map month (monthly (computeAnalytics h rows))) =
           {take 7 d |r d. r \<in> set rows \<and> launch_date r = Some d}"
    unfolding monthly_key_set by (auto simp: bucketRows_nonempty_iff)
  assume "e \<in> set (monthly (computeAnalytics h rows))"
  then obtain a where a: "(month e, a) \<in> set ?ma" and e: "e = snd (finalizeMonth h (month e, a))"
    using monthly_entry by blast
  from a d have "map_of ?ma (month e) = Some a" by simp
  then have "a = bucketAcc h (bucketRows (month e) rows)"
    by (simp add: m split: if_splits)
  then show "count e = length (bucketRows (month e) rows) \<and>
           avgPrice e = average h (nonNull price (bucketRows (month e) rows)) \<and>
           avgRating e = average h (nonNull rating (bucketRows (month e) rows))"
    using e finalize_bucketAcc [of h "month e" "bucketRows (month e) rows"] by metis
qed

lemma missing_loop:
  "missing_product (acc_missing (foldl (step h) st rows)) =
     missing_product (acc_missing st) + length (filter (\<lambda>r. product r = None) rows) \<and>
   missing_price (acc_missing (foldl (step h) st rows)) =
     missing_price (acc_missing st) + length (filter (\<lambda>r. price r = None) rows) \<and>
   missing_rating (acc_missing (foldl (step h) st rows)) =
     missing_rating (acc_missing st) + length (filter (\<lambda>r. rating r = None) rows) \<and>
   missing_instock (acc_missing (foldl (step h) st rows)) =
     missing_instock (acc_missing st) + length (filter (\<lambda>r. instock r = None) rows) \<and>
   missing_launch_date (acc_missing (foldl (step h) st rows)) =
     missing_launch_date (acc_missing st) + length (filter (\<lambda>r. launch_date r = None) rows)"
proof (induction rows arbitrary: st)
  case Nil
  show ?case by simp
next
  case (Cons r rows)
  show ?case
    by (simp add: Cons.IH countMissing_def)
qed

lemma parseDateISO_nonempty: "parseDateISO h v \<noteq> Some []"
  by (cases v) (auto simp: parseDateISO_def Let_def split: option.splits)

lemma finalRows_dated: "\<forall>r\<in>set (finalRows h records). launch_date r \<noteq> Some []"
  by (auto simp: finalRows_def cleanRow_fields parseDateISO_nonempty)

lemma finalRows_examples:
  "finalRows ascii_host [widgetRecord, blankRecord, gadgetRecord] =
     [cleanRow ascii_host widgetRecord, cleanRow ascii_host gadgetRecord]"
  by (simp add: finalRows_def keepRow_examples)

lemma monthly_example:
  "monthly (computeAnalytics ascii_host [cleanRow ascii_host widgetRecord, cleanRow ascii_host gadgetRecord]) =
     [\<lparr> month = ascii ''2023-12'', count = 1, avgPrice = Some (Finite (2469 / 2)),
        avgRating = Some (Finite 0) \<rparr>,
      \<lparr> month = ascii ''2024-01'', count = 1, avgPrice = Some (Finite 10000),
        avgRating = Some (Finite 5) \<rparr>]"
  by (simp add: computeAnalytics_simps cleanRow_widget cleanRow_gadget initState_def
      accumulateMonth_def finalizeMonth_def Array_sort_def localeCompare_def js_div_def
      js_add_def toDouble_def ascii_def)

lemma monthly_bulk:
  "monthly (computeAnalytics ascii_host [cleanRow ascii_host bulkRecord, cleanRow ascii_host bulkRecord]) =
     [\<lparr> month = ascii ''2024-01'', count = 2, avgPrice = Some PosInfinity, avgRating = None \<rparr>]"
  by (simp add: computeAnalytics_simps cleanRow_bulk initState_def
      accumulateMonth_def finalizeMonth_def Array_sort_def localeCompare_def js_div_def
      js_add_def toDouble_def ascii_def)

section \<open>The monthly series\<close>

text \<open>
  C5: for the rows that the pipeline passes to the aggregator, the months of the monthly
  series are strictly ascending in the lexicographic order of the keys, so every key occurs
  once, and they are exactly the seven-unit prefixes of the launch dates that are not null.
  The entry of a month holds the number of rows of that month and, for price and for
  rating, the sum of the month's non-null values, added up from zero in row order, divided
  by their number when there is one, and null otherwise; sum and quotient are those of
  JavaScript, rounded and an infinity on overflow. Rows without a launch date are in no bucket and count
  for \<open>totalRows\<close>, for the missing counts and for the instock buckets like every row.
\<close>

theorem monthly_series:
  assumes "rows = finalRows h records"
  shows "sorted_wrt (<) (map month (monthly (computeAnalytics h rows))) \<and>
         set (map month (monthly (computeAnalytics h rows))) =
           {take 7 d |r d. r \<in> set rows \<and> launch_date r = Some d} \<and>
         (\<forall>e\<in>set (monthly (computeAnalytics h rows)).
            count e = length (bucketRows (month e) rows) \<and>
            avgPrice e = average h (nonNull price (bucketRows (month e) rows)) \<and>
            avgRating e = average h (nonNull rating (bucketRows (month e) rows))) \<and>
         (\<forall>xs. average h xs =
            (if 0 < length xs then Some (js_div h (js_sum h xs) (length xs)) else None)) \<and>
         js_sum h [] = Finite 0 \<and>
         (\<forall>xs x. js_sum h (xs @ [x]) = js_add h (js_sum h xs) x) \<and>
         (\<forall>k. \<forall>r\<in>set (bucketRows k rows). launch_date r \<noteq> None) \<and>
         totalRows (computeAnalytics h rows) = length rows \<and>
         missing_product (missing (computeAnalytics h rows)) =
           length (filter (\<lambda>r. product r = None) rows) \<and>
         missing_price (missing (computeAnalytics h rows)) =
           length (filter (\<lambda>r. price r = None) rows) \<and>
         missing_rating (missing (computeAnalytics h rows)) =
           length (filter (\<lambda>r. rating r = None) rows) \<and>
         missing_instock (missing (computeAnalytics h rows)) =
           length (filter (\<lambda>r. instock r = None) rows) \<and>
         missing_launch_date (missing (computeAnalytics h rows)) =
           length (filter (\<lambda>r. launch_date r = None) rows) \<and>
         instock_true (instockCounts (computeAnalytics h rows)) =
           length (filter (\<lambda>r. instock r = Some True) rows) \<and>
         instock_false (instockCounts (computeAnalytics h rows)) =
           length (filter (\<lambda>r. instock r = Some False) rows) \<and>
         instock_null (instockCounts (computeAnalytics h rows)) =
           length (filter (\<lambda>r. instock r = None) rows)"
proof -
  have d: "\<forall>r\<in>set rows. launch_date r \<noteq> Some []"
    unfolding assms by (rule finalRows_dated)
  have s: "sorted_wrt (<) (map month (monthly (computeAnalytics h rows)))"
    using d by (rule monthly_of_dated_rows(1))
  have k: "set (map month (monthly (computeAnalytics h rows))) =
           {take 7 d |r d. r \<in> set rows \<and> launch_date r = Some d}"
    using d by (rule monthly_of_dated_rows(2))
  have e: "\<forall>e\<in>set (monthly (computeAnalytics h rows)).
            count e = length (bucketRows (month e) rows) \<and>
            avgPrice e = average h (nonNull price (bucketRows (month e) rows)) \<and>
            avgRating e = average h (nonNull rating (bucketRows (month e) rows))"
    using monthly_of_dated_rows(3) [OF d] by blast
  have a: "(\<forall>xs. average h xs =
            (if 0 < length xs then Some (js_div h (js_sum h xs) (length xs)) else None)) \<and>
         js_sum h [] = Finite 0 \<and>
         (\<forall>xs x. js_sum h (xs @ [x]) = js_add h (js_sum h xs) x)"
    by (simp add: average_def js_sum_Nil js_sum_snoc)
  have b: "\<forall>k. \<forall>r\<in>set (bucketRows k rows). launch_date r \<noteq> None"
    by (auto simp: bucketRows_def split: option.splits)
  have m: "acc_missing initState = \<lparr> missing_product = 0, missing_price = 0, missing_rating = 0,
      missing_instock = 0, missing_launch_date = 0 \<rparr>"
    by (simp add: initState_def)
  have i: "acc_instockCounts initState = \<lparr> instock_true = 0, instock_false = 0, instock_null = 0 \<rparr>"
    by (simp add: initState_def)
  have c: "totalRows (computeAnalytics h rows) = length rows \<and>
         missing_product (missing (computeAnalytics h rows)) =
           length (filter (\<lambda>r. product r = None) rows) \<and>
         missing_price (missing (computeAnalytics h rows)) =
           length (filter (\<lambda>r. price r = None) rows) \<and>
         missing_rating (missing (computeAnalytics h rows)) =
           length (filter (\<lambda>r. rating r = None) rows) \<and>
         missing_instock (missing (computeAnalytics h rows)) =
           length (filter (\<lambda>r. instock r = None) rows) \<and>
         missing_launch_date (missing (computeAnalytics h rows)) =
           length (filter (\<lambda>r. launch_date r = None) rows) \<and>
         instock_true (instockCounts (computeAnalytics h rows)) =
           length (filter (\<lambda>r. instock r = Some True) rows) \<and>
         instock_false (instockCounts (computeAnalytics h rows)) =
           length (filter (\<lambda>r. instock r = Some False) rows) \<and>
         instock_null (instockCounts (computeAnalytics h rows)) =
           length (filter (\<lambda>r. instock r = None) rows)"
    by (simp add: computeAnalytics_simps missing_loop instock_loop m i)
  show ?thesis
    using s k e a b c by blast
qed

text \<open>
  The three example records: the row of January 2024 comes first in the input, the blank row
  has no launch date, and the row of December 2023 comes last; the series begins with
  December. And two rows of one month whose prices add up to an infinity: so is their
  average.
\<close>

theorem monthly_series_witness:
  "map month (monthly (computeAnalytics ascii_host (finalRows ascii_host [widgetRecord, blankRecord, gadgetRecord])))
     = [ascii ''2023-12'', ascii ''2024-01''] \<and>
   sorted_wrt (<) [ascii ''2023-12'', ascii ''2024-01''] \<and>
   map count (monthly (computeAnalytics ascii_host (finalRows ascii_host [widgetRecord, blankRecord, gadgetRecord])))
     = [1, 1] \<and>
   map avgPrice (monthly (computeAnalytics ascii_host (finalRows ascii_host [widgetRecord, blankRecord, gadgetRecord])))
     = [Some (Finite (2469 / 2)), Some (Finite 10000)] \<and>
   totalRows (computeAnalytics ascii_host (finalRows ascii_host [widgetRecord, blankRecord, gadgetRecord])) = 2 \<and>
   monthly (computeAnalytics ascii_host (finalRows ascii_host [bulkRecord, bulkRecord])) =
     [\<lparr> month = ascii ''2024-01'', count = 2, avgPrice = Some PosInfinity, avgRating = None \<rparr>] \<and>
   average ascii_host (nonNull price (finalRows ascii_host [bulkRecord, bulkRecord])) = Some PosInfinity"
proof -
  have p: "nonNull price [cleanRow ascii_host bulkRecord, cleanRow ascii_host bulkRecord] =
      [10 ^ 308, 10 ^ 308]"
    by (simp add: nonNull_def map_filter_simps cleanRow_bulk)
  have a: "average ascii_host (nonNull price (finalRows ascii_host [bulkRecord, bulkRecord])) =
      Some PosInfinity"
    unfolding finalRows_bulk p average_def js_sum_bulk by (simp add: js_div_def)
  have b: "monthly (computeAnalytics ascii_host (finalRows ascii_host [bulkRecord, bulkRecord])) =
     [\<lparr> month = ascii ''2024-01'', count = 2, avgPrice = Some PosInfinity, avgRating = None \<rparr>]"
    unfolding finalRows_bulk by (rule monthly_bulk)
  have e: "map month (monthly (computeAnalytics ascii_host (finalRows ascii_host [widgetRecord, blankRecord, gadgetRecord])))
     = [ascii ''2023-12'', ascii ''2024-01''] \<and>
   sorted_wrt (<) [ascii ''2023-12'', ascii ''2024-01''] \<and>
   map count (monthly (computeAnalytics ascii_host (finalRows ascii_host [widgetRecord, blankRecord, gadgetRecord])))
     = [1, 1] \<and>
   map avgPrice (monthly (computeAnalytics ascii_host (finalRows ascii_host [widgetRecord, blankRecord, gadgetRecord])))
     = [Some (Finite (2469 / 2)), Some (Finite 10000)] \<and>
   totalRows (computeAnalytics ascii_host (finalRows ascii_host [widgetRecord, blankRecord, gadgetRecord])) = 2"
    using monthly_series [OF refl, of ascii_host "[widgetRecord, blankRecord, gadgetRecord]"]
    by (simp add: finalRows_examples monthly_example)
  show ?thesis
    using e a b by blast
qed

section \<open>The numeric normalizer\<close>

lemma radixValue_snoc: "radixValue b (ds @ [c]) = b * radixValue b ds + digitValue c"
  by (simp add: radixValue_def)

lemma radixValue_bound:
  "list_all isDigit ds \<Longrightarrow> radixValue 10 ds < 10 ^ length ds"
proof (induction ds rule: rev_induct)
  case Nil
  show ?case by (simp add: radixValue_def)
next
  case (snoc c ds)
  then have "radixValue 10 ds < 10 ^ length ds" and "digitValue c \<le> 9"
    by (auto simp: isDigit_def digitValue_def)
  then show ?case
    by (simp add: radixValue_snoc)
qed

lemma trim_id:
  assumes "s \<noteq> []" "\<not> isWhiteSpace (hd s)" "\<not> isWhiteSpace (last s)"
  shows "trim s = s"
proof -
  have a: "dropWhile isWhiteSpace s = s"
    using assms(1,2) by (cases s) auto
  have "dropWhile isWhiteSpace (rev s) = rev s"
    using assms(1,3) by (cases "rev s") (auto simp: last_rev [symmetric] simp del: last_rev)
  then show ?thesis
    by (simp add: trim_def a)
qed

lemma digit_facts:
  assumes "isDigit c"
  shows "\<not> isWhiteSpace c" "c \<noteq> 36" "c \<noteq> 163" "c \<noteq> 8364" "c \<noteq> 44" "c \<noteq> 43" "c \<noteq> 45"
    "c \<noteq> 46" "c \<noteq> 73" "c \<noteq> 120" "c \<noteq> 88" "c \<noteq> 111" "c \<noteq> 79" "c \<noteq> 98" "c \<noteq> 66"
  using assms by (auto simp: isDigit_def isWhiteSpace_def)

lemma nonDecimal_second:
  assumes "nonDecimalIntegerLiteral s = Some n"
  shows "\<exists>a b ds. s = a # b # ds \<and> a = 48 \<and> (b = 120 \<or> b = 88 \<or> b = 111 \<or> b = 79 \<or> b = 98 \<or> b = 66)"
  using assms
  by (auto simp: nonDecimalIntegerLiteral_def split: list.splits if_splits)

text \<open>A plain decimal literal: digits, a point, digits.\<close>

lemma unsigned_plain_decimal:
  assumes "ip \<noteq> []" "list_all isDigit ip" "list_all isDigit fp"
  shows "strUnsignedDecimalLiteral (ip @ 46 # fp) =
    Finite (of_nat (radixValue 10 ip) + of_nat (radixValue 10 fp) / 10 ^ length fp)"
proof -
  have i: "\<forall>x\<in>set ip. isDigit x" and f: "\<forall>x\<in>set fp. isDigit x"
    using assms by (simp_all add: list_all_iff)
  have n: "\<not> isDigit 46" by (simp add: isDigit_def)
  have t: "takeWhile isDigit (ip @ 46 # fp) = ip"
    using i n by (simp add: takeWhile_append2)
  have d: "dropWhile isDigit (ip @ 46 # fp) = 46 # fp"
    using i n by (simp add: dropWhile_append2)
  have tf: "takeWhile isDigit fp = fp" and df: "dropWhile isDigit fp = []"
    using f by simp_all
  have "hd (ip @ 46 # fp) \<noteq> hd (ascii ''Infinity'')"
    using assms(1) i digit_facts(9) [of "hd ip"] by (cases ip) (auto simp: ascii_def)
  then have inf: "ip @ 46 # fp \<noteq> ascii ''Infinity''" by metis
  show ?thesis
    using assms(1)
    by (simp add: strUnsignedDecimalLiteral_def inf t d tf df exponentPart_def scale10_def Let_def)
qed

lemma plain_decimal_small:
  assumes "list_all isDigit ip" "list_all isDigit fp" "length ip \<le> 300"
  shows "\<bar>of_nat (radixValue 10 ip) + of_nat (radixValue 10 fp) / 10 ^ length fp :: rat\<bar>
    < 2 ^ 1024 - 2 ^ 970"
proof -
  have "radixValue 10 ip < 10 ^ length ip"
    using assms(1) by (rule radixValue_bound)
  also have "(10::nat) ^ length ip \<le> 10 ^ 300"
    by (rule power_increasing) (use assms(3) in simp_all)
  finally have "(of_nat (radixValue 10 ip) :: rat) < of_nat (10 ^ 300)"
    by (simp only: of_nat_less_iff)
  then have a: "(of_nat (radixValue 10 ip) :: rat) < 10 ^ 300" by simp
  have "radixValue 10 fp < 10 ^ length fp"
    using assms(2) by (rule radixValue_bound)
  then have "(of_nat (radixValue 10 fp) :: rat) < of_nat (10 ^ length fp)"
    by (simp only: of_nat_less_iff)
  then have b: "(of_nat (radixValue 10 fp) :: rat) / 10 ^ length fp < 1"
    by (simp add: divide_less_eq)
  have c: "(0::rat) \<le> of_nat (radixValue 10 ip) + of_nat (radixValue 10 fp) / 10 ^ length fp"
    by simp
  have "(10::rat) ^ 300 + 1 < 2 ^ 1024 - 2 ^ 970" by simp
  with a b c show ?thesis by linarith
qed

lemma toDouble_finite: "\<bar>q\<bar> < 2 ^ 1024 - 2 ^ 970 \<Longrightarrow> toDouble q = Finite q"
  by (auto simp: toDouble_def abs_less_iff)

lemma Number_literal:
  assumes "trim s = s" "s \<noteq> []" "nonDecimalIntegerLiteral s = None"
    "strDecimalLiteral s = Finite q" "\<bar>q\<bar> < 2 ^ 1024 - 2 ^ 970"
  shows "Number s = Finite q"
  using assms by (simp add: Number_def toDouble_finite)

lemma parseNumber_literal:
  assumes "trim s = s" "s \<noteq> []"
    "filter (\<lambda>c. c \<noteq> 36 \<and> c \<noteq> 163 \<and> c \<noteq> 8364 \<and> c \<noteq> 44) s = s"
    "nonDecimalIntegerLiteral s = None"
    "strDecimalLiteral s = Finite q" "\<bar>q\<bar> < 2 ^ 1024 - 2 ^ 970"
  shows "parseNumber (Str s) = Some q"
  using assms Number_literal [of s q] by (simp add: parseNumber_def)

lemma parseNumber_plain_decimal:
  assumes "ip \<noteq> []" "list_all isDigit ip" "list_all isDigit fp" "length ip \<le> 300"
  shows "parseNumber (Str (ip @ 46 # fp)) =
           Some (of_nat (radixValue 10 ip) + of_nat (radixValue 10 fp) / 10 ^ length fp)"
    and "parseNumber (Str (45 # ip @ 46 # fp)) =
           Some (- (of_nat (radixValue 10 ip) + of_nat (radixValue 10 fp) / 10 ^ length fp))"
proof -
  let ?s = "ip @ 46 # fp"
  let ?q = "of_nat (radixValue 10 ip) + of_nat (radixValue 10 fp) / 10 ^ length fp :: rat"
  have i: "\<forall>x\<in>set ip. isDigit x" and f: "\<forall>x\<in>set fp. isDigit x"
    using assms by (simp_all add: list_all_iff)
  have all: "\<forall>x\<in>set ?s. isDigit x \<or> x = 46"
    using i f by auto
  have hd: "isDigit (hd ?s)"
    using assms(1) i by (cases ip) auto
  have ws: "\<not> isWhiteSpace 46" by (simp add: isWhiteSpace_def)
  have "last ?s \<in> set ?s" by simp
  then have "isDigit (last ?s) \<or> last ?s = 46"
    using all by blast
  then have lst: "\<not> isWhiteSpace (last ?s)"
    using digit_facts(1) [of "last ?s"] ws by metis
  have lst': "\<not> isWhiteSpace (last (45 # ?s))"
    using lst by simp
  have tr: "trim ?s = ?s"
    using hd lst by (intro trim_id) (simp_all add: digit_facts(1))
  have tr': "trim (45 # ?s) = 45 # ?s"
    using lst' by (intro trim_id) (simp_all add: isWhiteSpace_def)
  have keep: "\<forall>x\<in>set ?s. x \<noteq> 36 \<and> x \<noteq> 163 \<and> x \<noteq> 8364 \<and> x \<noteq> 44"
    using all digit_facts(2-5) by fastforce
  have fl: "filter (\<lambda>c. c \<noteq> 36 \<and> c \<noteq> 163 \<and> c \<noteq> 8364 \<and> c \<noteq> 44) ?s = ?s"
    using keep by (simp only: filter_id_conv)
  have fl': "filter (\<lambda>c. c \<noteq> 36 \<and> c \<noteq> 163 \<and> c \<noteq> 8364 \<and> c \<noteq> 44) (45 # ?s) = 45 # ?s"
    using fl by simp
  have nd: "nonDecimalIntegerLiteral ?s = None"
  proof (cases "nonDecimalIntegerLiteral ?s")
    case (Some n)
    then obtain a b ds where s: "?s = a # b # ds"
        and b: "b = 120 \<or> b = 88 \<or> b = 111 \<or> b = 79 \<or> b = 98 \<or> b = 66"
      using nonDecimal_second by blast
    have "b \<in> set ?s" unfolding s by simp
    then have "isDigit b \<or> b = 46" using all by blast
    then show ?thesis
      using b by (auto simp: isDigit_def)
  qed simp
  have nd': "nonDecimalIntegerLiteral (45 # ?s) = None"
    by (cases "nonDecimalIntegerLiteral (45 # ?s)") (auto dest: nonDecimal_second)
  have u: "strUnsignedDecimalLiteral ?s = Finite ?q"
    using assms(1-3) by (rule unsigned_plain_decimal)
  have sd: "strDecimalLiteral ?s = Finite ?q"
    using hd digit_facts(6,7) [OF hd] assms(1) u
    by (cases ip) (simp_all add: strDecimalLiteral_def)
  have sd': "strDecimalLiteral (45 # ?s) = Finite (- ?q)"
    by (simp add: strDecimalLiteral_def u negate_def)
  have small: "\<bar>?q\<bar> < 2 ^ 1024 - 2 ^ 970"
    using assms(2-4) by (rule plain_decimal_small)
  then have small': "\<bar>- ?q\<bar> < 2 ^ 1024 - 2 ^ 970"
    by (simp only: abs_minus_cancel)
  show "parseNumber (Str ?s) = Some ?q"
    using tr _ fl nd sd small by (rule parseNumber_literal) simp
  show "parseNumber (Str (45 # ?s)) = Some (- ?q)"
    using tr' _ fl' nd' sd' small' by (rule parseNumber_literal) simp
qed

text \<open>
  C9: null and undefined give null, and so does a string that trims to the empty string.
  Otherwise the dollar, pound and euro signs and the commas are removed from the trimmed
  string and the rest is converted: the result is the number when the conversion gives a
  finite one, and null when it gives NaN or an infinity. A literal of digits, a point and
  digits, with or without a minus sign in front, keeps its value and its sign.
\<close>

theorem parseNumber_normalizer:
  "parseNumber Undefined = None \<and> parseNumber Null = None \<and>
   (trim s = [] \<longrightarrow> parseNumber (Str s) = None) \<and>
   (trim s \<noteq> [] \<longrightarrow>
      parseNumber (Str s) =
        (case Number (filter (\<lambda>c. c \<notin> set (ascii ''$,'') \<union> {163, 8364}) (trim s)) of
           Finite q \<Rightarrow> Some q | _ \<Rightarrow> None)) \<and>
   (\<forall>q. parseNumber v = Some q \<longrightarrow>
      (\<exists>s0. v = Str s0 \<and> trim s0 \<noteq> [] \<and>
         Number (filter (\<lambda>c. c \<notin> set (ascii ''$,'') \<union> {163, 8364}) (trim s0)) = Finite q)) \<and>
   (ip \<noteq> [] \<and> list_all isDigit ip \<and> list_all isDigit fp \<and> length ip \<le> 300 \<longrightarrow>
      parseNumber (Str (ip @ 46 # fp)) =
        Some (of_nat (radixValue 10 ip) + of_nat (radixValue 10 fp) / 10 ^ length fp) \<and>
      parseNumber (Str (45 # ip @ 46 # fp)) =
        Some (- (of_nat (radixValue 10 ip) + of_nat (radixValue 10 fp) / 10 ^ length fp)))"
proof -
  have c: "(\<lambda>c. c \<notin> set (ascii ''$,'') \<union> {163, 8364}) =
      (\<lambda>c. c \<noteq> 36 \<and> c \<noteq> 163 \<and> c \<noteq> 8364 \<and> c \<noteq> 44)"
    by (auto simp: ascii_def)
  have a: "parseNumber Undefined = None \<and> parseNumber Null = None \<and>
      (trim s = [] \<longrightarrow> parseNumber (Str s) = None)"
    by (simp add: parseNumber_def)
  have b: "trim s \<noteq> [] \<longrightarrow>
      parseNumber (Str s) =
        (case Number (filter (\<lambda>c. c \<notin> set (ascii ''$,'') \<union> {163, 8364}) (trim s)) of
           Finite q \<Rightarrow> Some q | _ \<Rightarrow> None)"
    unfolding c by (simp add: parseNumber_def)
  have d: "\<forall>q. parseNumber v = Some q \<longrightarrow>
      (\<exists>s0. v = Str s0 \<and> trim s0 \<noteq> [] \<and>
         Number (filter (\<lambda>c. c \<notin> set (ascii ''$,'') \<union> {163, 8364}) (trim s0)) = Finite q)"
    unfolding c
    by (cases v) (auto simp: parseNumber_def Let_def split: if_splits jsnumber.splits)
  show ?thesis
    using a b d parseNumber_plain_decimal [of ip fp] by blast
qed

text \<open>The four examples: a price in pounds, a word, the empty string and a negative decimal.\<close>

theorem parseNumber_normalizer_witness:
  "parseNumber (Str (163 # ascii ''1,234.50'')) = Some (123450 / 100) \<and>
   parseNumber (Str (ascii ''abc'')) = None \<and>
   parseNumber (Str []) = None \<and>
   parseNumber (Str (ascii ''-3.5'')) = Some (- (35 / 10))"
proof -
  have e: "trim [] = []" by simp
  have m: "ascii ''-3.5'' = 45 # [51] @ 46 # [53]" by (simp add: ascii_def)
  have h: "[51] \<noteq> [] \<and> list_all isDigit [51] \<and> list_all isDigit [53] \<and> length [51::nat] \<le> 300"
    by (simp add: isDigit_def)
  have r: "of_nat (radixValue 10 [51]) + of_nat (radixValue 10 [53]) / 10 ^ length [53::nat]
      = (35 / 10 :: rat)"
    by (simp add: radixValue_def digitValue_def isDigit_def)
  have "parseNumber (Str (45 # [51] @ 46 # [53])) = Some (- (35 / 10))"
    using h parseNumber_normalizer [of "[]" Null "[51]" "[53]"] unfolding r by blast
  moreover have "parseNumber (Str []) = None"
    using e parseNumber_normalizer [of "[]" Null "[]" "[]"] by blast
  ultimately show ?thesis
    by (simp add: m parseNumber_pound parseNumber_abc)
qed

end
